theory Spec2Isabelle
  imports Main
begin

section \<open>Data model of the fast WordPiece tokenizer\<close>

text \<open>
  The model follows \<^verbatim>\<open>tensorflow_text/core/kernels/fast_wordpiece_tokenizer.cc\<close>.
  Trie node ids and container sizes are natural numbers, token ids, encoded token
  values, code points and text offsets are integers.
\<close>

record failure_struct =
  failure_link :: nat
  failure_pops_offset_length :: nat

text \<open>
  The configuration flatbuffer \<^verbatim>\<open>config_\<close>. Its schema is not part of the sources;
  the fields are the accessors the tokenizer calls. \<open>max_bytes_per_token\<close> is a
  positive integer in the specification and is kept as a natural number.
\<close>

record config =
  vocab_array :: "string list"
  vocab_is_suffix_array :: "bool list"
  suffix_indicator :: string
  unk_token :: string
  unk_token_id :: int
  max_bytes_per_token :: nat
  end_to_end :: bool
  support_detokenization :: bool
  failure_struct_array :: "failure_struct list"
  failure_pops_pool :: "int list"
  precomputed_result_for_suffix_indicator :: "int list"
  trie_suffix_root :: nat
  trie_punct_failure_link_node :: nat

text \<open>
  The helpers the tokenizer calls whose code is outside the sources, taken as
  parameters: the trie wrapper (\<^verbatim>\<open>DartsCloneTrieWrapper\<close>), the bit-packing helpers of
  \<^verbatim>\<open>fast_wordpiece_tokenizer_utils\<close> and the ICU macros. A traversal cursor is
  identified with its node id. \<open>TryTraverseOneStep n c\<close> is \<open>Some n'\<close> when the trie
  has an edge labelled \<open>c\<close> from \<open>n\<close> to \<open>n'\<close> and \<open>None\<close> when the call returns false
  (the cursor is then left as it was). \<open>TryGetData n\<close> is the encoded token stored on
  the node, if any. \<open>U8_NEXT text i\<close> is the decoded code point and the index after it.
\<close>

record externals =
  TryTraverseOneStep :: "nat \<Rightarrow> char \<Rightarrow> nat option"
  TryGetData :: "nat \<Rightarrow> int option"
  kRootNodeId :: nat
  kNullNode :: nat
  GetTokenId :: "int \<Rightarrow> int"
  GetTokenLength :: "int \<Rightarrow> nat"
  IsSuffixToken :: "int \<Rightarrow> bool"
  GetFailurePopsOffsetAndLength :: "nat \<Rightarrow> nat \<times> nat"
  U8_NEXT :: "string \<Rightarrow> nat \<Rightarrow> int \<times> nat"
  u_isUWhiteSpace :: "int \<Rightarrow> bool"
  IsPunctuationOrChineseChar :: "int \<Rightarrow> bool"

text \<open>The template parameters that select the outputs.\<close>

record flags =
  kGetPieces :: bool
  kGetIds :: bool
  kGetOffsets :: bool

text \<open>The four caller-supplied output vectors.\<close>

record outputs =
  output_pieces :: "string list"
  output_ids :: "int list"
  output_start_offsets :: "int list"
  output_end_offsets :: "int list"

text \<open>
  The state a word is tokenized in: the offset of the part of the word not yet
  emitted, the trie cursor and the outputs.
\<close>

record word_state =
  cur_offset_in_input_word :: nat
  cur_node :: nat
  out :: outputs

section \<open>Vector helpers\<close>

text \<open>
  \<^verbatim>\<open>flatbuffers::Vector::Get\<close>: an index outside the vector fails its assertion;
  the model gives \<open>None\<close> there and every caller stops with \<open>None\<close>.
\<close>

definition Get :: "'a list \<Rightarrow> nat \<Rightarrow> 'a option" where
  "Get xs i = (if i < length xs then Some (xs ! i) else None)"

text \<open>\<^verbatim>\<open>std::vector::resize\<close> with the value-initialised element \<open>d\<close>.\<close>

definition resize :: "'a \<Rightarrow> nat \<Rightarrow> 'a list \<Rightarrow> 'a list" where
  "resize d n xs = take n xs @ replicate (n - length xs) d"

text \<open>\<^verbatim>\<open>v->back() = x\<close> on a vector that is not empty.\<close>

definition set_back :: "'a \<Rightarrow> 'a list \<Rightarrow> 'a list" where
  "set_back x xs = xs[length xs - 1 := x]"

definition GetCurrentOutputSize :: "flags \<Rightarrow> outputs \<Rightarrow> nat" where
  "GetCurrentOutputSize fl ou =
     (if kGetPieces fl then length (output_pieces ou) else length (output_ids ou))"

section \<open>Emitting tokens\<close>

definition ResetOutputAppendUnknownToken ::
  "flags \<Rightarrow> config \<Rightarrow> int \<Rightarrow> int \<Rightarrow> nat \<Rightarrow> outputs \<Rightarrow> nat \<times> outputs" where
  "ResetOutputAppendUnknownToken fl cfg input_word_offset_in_text input_size
       original_num_tokens ou =
     (let o1 = (if kGetPieces fl
                then ou\<lparr>output_pieces :=
                       set_back (unk_token cfg)
                         (resize [] (original_num_tokens + 1) (output_pieces ou))\<rparr>
                else ou);
          o2 = (if kGetIds fl
                then o1\<lparr>output_ids :=
                       set_back (unk_token_id cfg)
                         (resize 0 (original_num_tokens + 1) (output_ids o1))\<rparr>
                else o1);
          o3 = (if kGetOffsets fl
                then o2\<lparr>output_start_offsets :=
                         set_back input_word_offset_in_text
                           (resize 0 (original_num_tokens + 1) (output_start_offsets o2)),
                       output_end_offsets :=
                         set_back (input_word_offset_in_text + input_size)
                           (resize 0 (original_num_tokens + 1) (output_end_offsets o2))\<rparr>
                else o2)
      in (original_num_tokens + 1, o3))"

text \<open>
  \<open>AppendTokenToOutput\<close>. The piece is read from the input word as
  \<^verbatim>\<open>string_view(input_word.data() + cur_offset_in_input_word, token_substr_length)\<close>;
  the model reads it with \<open>take\<close> and \<open>drop\<close>, which agrees with the code whenever
  the view lies inside the word.
\<close>

definition AppendTokenToOutput ::
  "flags \<Rightarrow> config \<Rightarrow> externals \<Rightarrow> string \<Rightarrow> int \<Rightarrow> int \<Rightarrow> word_state \<Rightarrow> word_state" where
  "AppendTokenToOutput fl cfg ext input_word input_word_offset_in_text
       encoded_token_value st =
     (let token_id = GetTokenId ext encoded_token_value;
          off = cur_offset_in_input_word st;
          o1 = (if kGetIds fl
                then (out st)\<lparr>output_ids := output_ids (out st) @ [token_id]\<rparr>
                else out st)
      in if kGetPieces fl \<or> kGetOffsets fl
         then
           (let token_substr_length =
                  GetTokenLength ext encoded_token_value +
                  (if off = 0 \<and> IsSuffixToken ext encoded_token_value
                   then length (suffix_indicator cfg) else 0);
                subword_str =
                  (if token_id = unk_token_id cfg then unk_token cfg
                   else take token_substr_length (drop off input_word));
                o2 = (if kGetPieces fl
                      then o1\<lparr>output_pieces := output_pieces o1 @
                             [if off \<noteq> 0 then suffix_indicator cfg @ subword_str
                              else subword_str]\<rparr>
                      else o1);
                o3 = (if kGetOffsets fl
                      then o2\<lparr>output_start_offsets := output_start_offsets o2 @
                               [input_word_offset_in_text + int off],
                             output_end_offsets := output_end_offsets o2 @
                               [input_word_offset_in_text + int off +
                                int token_substr_length]\<rparr>
                      else o2)
            in st\<lparr>cur_offset_in_input_word := off + token_substr_length, out := o3\<rparr>)
         else st\<lparr>out := o1\<rparr>)"

text \<open>
  The loop over \<^verbatim>\<open>failure_pops_pool[offset .. offset+length)\<close> of
  \<open>TryFollowFailureLinkAndCollectTokens\<close>: \<open>k\<close> pops are still to be read, the next
  one at \<open>offset_in_pool\<close>.
\<close>

fun collect_failure_pops ::
  "flags \<Rightarrow> config \<Rightarrow> externals \<Rightarrow> string \<Rightarrow> int \<Rightarrow> nat \<Rightarrow> nat \<Rightarrow> word_state
     \<Rightarrow> word_state option" where
  "collect_failure_pops fl cfg ext input_word w 0 offset_in_pool st = Some st"
| "collect_failure_pops fl cfg ext input_word w (Suc k) offset_in_pool st =
     (case Get (failure_pops_pool cfg) offset_in_pool of
        None \<Rightarrow> None
      | Some v \<Rightarrow>
          collect_failure_pops fl cfg ext input_word w k (Suc offset_in_pool)
            (AppendTokenToOutput fl cfg ext input_word w v st))"

text \<open>
  \<open>TryFollowFailureLinkAndCollectTokens\<close>: the returned flag is the function's
  result, the state is what the reference parameters hold afterwards.
\<close>

definition TryFollowFailureLinkAndCollectTokens ::
  "flags \<Rightarrow> config \<Rightarrow> externals \<Rightarrow> string \<Rightarrow> int \<Rightarrow> word_state
     \<Rightarrow> (bool \<times> word_state) option" where
  "TryFollowFailureLinkAndCollectTokens fl cfg ext input_word w st =
     (case TryGetData ext (cur_node st) of
        Some cur_node_data \<Rightarrow>
          (case Get (failure_struct_array cfg) (cur_node st) of
             None \<Rightarrow> None
           | Some node_aux \<Rightarrow>
               Some (True,
                 (AppendTokenToOutput fl cfg ext input_word w cur_node_data st)
                   \<lparr>cur_node := failure_link node_aux\<rparr>))
      | None \<Rightarrow>
          (case Get (failure_struct_array cfg) (cur_node st) of
             None \<Rightarrow> None
           | Some node_aux \<Rightarrow>
               if failure_link node_aux = kNullNode ext then Some (False, st)
               else
                 (case collect_failure_pops fl cfg ext input_word w
                         (snd (GetFailurePopsOffsetAndLength ext
                                 (failure_pops_offset_length node_aux)))
                         (fst (GetFailurePopsOffsetAndLength ext
                                 (failure_pops_offset_length node_aux))) st of
                    None \<Rightarrow> None
                  | Some st' \<Rightarrow> Some (True, st'\<lparr>cur_node := failure_link node_aux\<rparr>))))"

section \<open>The word that is the suffix indicator itself\<close>

definition TryHandleTheInputWordBeingSuffixIndicatorItself ::
  "flags \<Rightarrow> config \<Rightarrow> externals \<Rightarrow> string \<Rightarrow> int \<Rightarrow> nat \<Rightarrow> word_state
     \<Rightarrow> bool \<times> word_state" where
  "TryHandleTheInputWordBeingSuffixIndicatorItself fl cfg ext input_word w
       original_num_tokens st =
     (if cur_node st \<noteq> trie_suffix_root cfg then (False, st)
      else if GetCurrentOutputSize fl (out st) \<noteq> original_num_tokens then (False, st)
      else if length (precomputed_result_for_suffix_indicator cfg) = 1 \<and>
              GetTokenId ext (precomputed_result_for_suffix_indicator cfg ! 0) =
                unk_token_id cfg
      then (True,
            st\<lparr>out := snd (ResetOutputAppendUnknownToken fl cfg w
                              (int (length input_word)) original_num_tokens (out st))\<rparr>)
      else (True,
            foldl (\<lambda>s v. AppendTokenToOutput fl cfg ext input_word w v s) st
              (precomputed_result_for_suffix_indicator cfg)))"

section \<open>Collecting the tokens left on the trie path\<close>

text \<open>
  The \<^verbatim>\<open>while\<close> loop of \<open>HandleTheRemainingStringOnTriePath\<close>. A failure link may
  lead back to a node already visited, so the loop carries fuel: \<open>None\<close> is a run
  that did not end within it (or stopped at a vector index out of range). The flag
  says whether the loop ended at \<open>trie_suffix_root\<close> or the punctuation node (true)
  or at a node with no failure link (false).
\<close>

fun remaining_loop ::
  "nat \<Rightarrow> flags \<Rightarrow> config \<Rightarrow> externals \<Rightarrow> string \<Rightarrow> int \<Rightarrow> word_state
     \<Rightarrow> (bool \<times> word_state) option" where
  "remaining_loop 0 fl cfg ext input_word w st =
     (if cur_node st \<noteq> trie_suffix_root cfg \<and>
         cur_node st \<noteq> trie_punct_failure_link_node cfg
      then None else Some (True, st))"
| "remaining_loop (Suc n) fl cfg ext input_word w st =
     (if cur_node st \<noteq> trie_suffix_root cfg \<and>
         cur_node st \<noteq> trie_punct_failure_link_node cfg
      then (case TryFollowFailureLinkAndCollectTokens fl cfg ext input_word w st of
              None \<Rightarrow> None
            | Some (False, st') \<Rightarrow> Some (False, st')
            | Some (True, st') \<Rightarrow> remaining_loop n fl cfg ext input_word w st')
      else Some (True, st))"

text \<open>
  \<open>HandleTheRemainingStringOnTriePath\<close> returns the new value of the reference
  parameter \<open>original_num_tokens\<close> with the state.
\<close>

definition HandleTheRemainingStringOnTriePath ::
  "nat \<Rightarrow> flags \<Rightarrow> config \<Rightarrow> externals \<Rightarrow> string \<Rightarrow> int \<Rightarrow> nat \<Rightarrow> word_state
     \<Rightarrow> (nat \<times> word_state) option" where
  "HandleTheRemainingStringOnTriePath fuel fl cfg ext input_word w
       original_num_tokens st =
     (if cur_node st = kRootNodeId ext then Some (original_num_tokens, st)
      else
        (case TryHandleTheInputWordBeingSuffixIndicatorItself fl cfg ext input_word w
                original_num_tokens st of
           (True, st') \<Rightarrow> Some (GetCurrentOutputSize fl (out st'), st')
         | (False, st') \<Rightarrow>
             (case remaining_loop fuel fl cfg ext input_word w st' of
                None \<Rightarrow> None
              | Some (False, st'') \<Rightarrow>
                  (case ResetOutputAppendUnknownToken fl cfg w (int (length input_word))
                          original_num_tokens (out st'') of
                     (n, ou) \<Rightarrow> Some (n, st''\<lparr>out := ou\<rparr>))
              | Some (True, st'') \<Rightarrow>
                  Some (GetCurrentOutputSize fl (out st''), st''))))"

section \<open>Single-word tokenization\<close>

text \<open>
  The loop \<^verbatim>\<open>while (!trie_->TryTraverseOneStep(cur_node, ch))\<close>: true with the state
  after the step, or false when no failure link could be followed.
\<close>

fun single_word_step ::
  "nat \<Rightarrow> flags \<Rightarrow> config \<Rightarrow> externals \<Rightarrow> string \<Rightarrow> int \<Rightarrow> char \<Rightarrow> word_state
     \<Rightarrow> (bool \<times> word_state) option" where
  "single_word_step 0 fl cfg ext input_word w ch st =
     (case TryTraverseOneStep ext (cur_node st) ch of
        Some n' \<Rightarrow> Some (True, st\<lparr>cur_node := n'\<rparr>)
      | None \<Rightarrow> None)"
| "single_word_step (Suc n) fl cfg ext input_word w ch st =
     (case TryTraverseOneStep ext (cur_node st) ch of
        Some n' \<Rightarrow> Some (True, st\<lparr>cur_node := n'\<rparr>)
      | None \<Rightarrow>
          (case TryFollowFailureLinkAndCollectTokens fl cfg ext input_word w st of
             None \<Rightarrow> None
           | Some (False, st') \<Rightarrow> Some (False, st')
           | Some (True, st') \<Rightarrow> single_word_step n fl cfg ext input_word w ch st'))"

text \<open>The loop \<^verbatim>\<open>for (auto ch : input_word)\<close> over the bytes still to be read.\<close>

fun single_word_loop ::
  "nat \<Rightarrow> flags \<Rightarrow> config \<Rightarrow> externals \<Rightarrow> string \<Rightarrow> int \<Rightarrow> string \<Rightarrow> word_state
     \<Rightarrow> (bool \<times> word_state) option" where
  "single_word_loop fuel fl cfg ext input_word w [] st = Some (True, st)"
| "single_word_loop fuel fl cfg ext input_word w (ch # rest) st =
     (case single_word_step fuel fl cfg ext input_word w ch st of
        None \<Rightarrow> None
      | Some (False, st') \<Rightarrow> Some (False, st')
      | Some (True, st') \<Rightarrow> single_word_loop fuel fl cfg ext input_word w rest st')"

definition TokenizeSingleWordImpl ::
  "nat \<Rightarrow> flags \<Rightarrow> config \<Rightarrow> externals \<Rightarrow> string \<Rightarrow> int \<Rightarrow> outputs \<Rightarrow> outputs option" where
  "TokenizeSingleWordImpl fuel fl cfg ext input_word input_word_offset_in_text ou =
     (if input_word = [] then Some ou
      else
        (let original_num_tokens = GetCurrentOutputSize fl ou
         in if length input_word > max_bytes_per_token cfg
            then Some (snd (ResetOutputAppendUnknownToken fl cfg input_word_offset_in_text
                              (int (length input_word)) original_num_tokens ou))
            else
              (case single_word_loop fuel fl cfg ext input_word input_word_offset_in_text
                      input_word
                      \<lparr>cur_offset_in_input_word = 0, cur_node = kRootNodeId ext,
                       out = ou\<rparr> of
                 None \<Rightarrow> None
               | Some (False, st) \<Rightarrow>
                   Some (snd (ResetOutputAppendUnknownToken fl cfg
                                input_word_offset_in_text (int (length input_word))
                                original_num_tokens (out st)))
               | Some (True, st) \<Rightarrow>
                   map_option (\<lambda>r. out (snd r))
                     (HandleTheRemainingStringOnTriePath fuel fl cfg ext input_word
                        input_word_offset_in_text original_num_tokens st))))"

section \<open>End-to-end tokenization\<close>

text \<open>
  Modelled from the spec: \<open>TryTraverseSeveralSteps\<close> of the trie wrapper, whose code
  is outside the sources: the cursor advances only if all bytes can be consumed,
  else it is unchanged.
\<close>

fun TryTraverseSeveralSteps :: "externals \<Rightarrow> nat \<Rightarrow> string \<Rightarrow> nat option" where
  "TryTraverseSeveralSteps ext n [] = Some n"
| "TryTraverseSeveralSteps ext n (c # cs) =
     (case TryTraverseOneStep ext n c of
        None \<Rightarrow> None
      | Some n' \<Rightarrow> TryTraverseSeveralSteps ext n' cs)"

text \<open>
  \<^verbatim>\<open>string_view::substr(pos, n)\<close> where \<open>n\<close> is an \<^verbatim>\<open>int\<close> converted to
  \<^verbatim>\<open>size_t\<close>: a negative count becomes a huge one and the view runs to the end.
\<close>

definition substr :: "string \<Rightarrow> nat \<Rightarrow> int \<Rightarrow> string" where
  "substr s pos n = (if n < 0 then drop pos s else take (nat n) (drop pos s))"

text \<open>
  The local variables of \<open>TokenizeTextImpl\<close>. \<open>prev_unicode_char\<close> is declared
  without a value in the code and assigned before it is first read.
\<close>

record text_state =
  cur_pos :: nat
  next_pos :: nat
  original_num_tokens :: nat
  prev_unicode_char :: int
  cur_unicode_char :: int
  word_byte_length_so_far :: int
  word :: word_state

fun SkipTheRemainingOfWordAndTrailingWhiteSpaces ::
  "nat \<Rightarrow> externals \<Rightarrow> string \<Rightarrow> nat \<times> nat \<Rightarrow> (nat \<times> nat) option" where
  "SkipTheRemainingOfWordAndTrailingWhiteSpaces 0 ext input (end_of_word, pos) =
     (if pos < length input then None else Some (end_of_word, pos))"
| "SkipTheRemainingOfWordAndTrailingWhiteSpaces (Suc n) ext input (end_of_word, pos) =
     (if pos < length input
      then (if u_isUWhiteSpace ext (fst (U8_NEXT ext input pos))
            then Some (end_of_word, snd (U8_NEXT ext input pos))
            else if IsPunctuationOrChineseChar ext (fst (U8_NEXT ext input pos))
            then Some (end_of_word, pos)
            else SkipTheRemainingOfWordAndTrailingWhiteSpaces n ext input
                   (snd (U8_NEXT ext input pos), snd (U8_NEXT ext input pos)))
      else Some (end_of_word, pos))"

text \<open>
  The loop \<^verbatim>\<open>while (!trie_->TryTraverseSeveralSteps(cur_node, ...))\<close> on the bytes
  \<open>bs\<close> of one Unicode character.
\<close>

fun text_char_step ::
  "nat \<Rightarrow> flags \<Rightarrow> config \<Rightarrow> externals \<Rightarrow> string \<Rightarrow> int \<Rightarrow> string \<Rightarrow> word_state
     \<Rightarrow> (bool \<times> word_state) option" where
  "text_char_step 0 fl cfg ext input_substr w bs st =
     (case TryTraverseSeveralSteps ext (cur_node st) bs of
        Some n' \<Rightarrow> Some (True, st\<lparr>cur_node := n'\<rparr>)
      | None \<Rightarrow> None)"
| "text_char_step (Suc n) fl cfg ext input_substr w bs st =
     (case TryTraverseSeveralSteps ext (cur_node st) bs of
        Some n' \<Rightarrow> Some (True, st\<lparr>cur_node := n'\<rparr>)
      | None \<Rightarrow>
          (case TryFollowFailureLinkAndCollectTokens fl cfg ext input_substr w st of
             None \<Rightarrow> None
           | Some (False, st') \<Rightarrow> Some (False, st')
           | Some (True, st') \<Rightarrow> text_char_step n fl cfg ext input_substr w bs st'))"

text \<open>
  The trie matching loop of one word, up to the label
  \<^verbatim>\<open>outside_trie_match_loop\<close>. \<open>word_start\<close> is the local
  \<^verbatim>\<open>input_word_offset_in_text\<close>.
\<close>

fun trie_match_loop ::
  "nat \<Rightarrow> nat \<Rightarrow> flags \<Rightarrow> config \<Rightarrow> externals \<Rightarrow> string \<Rightarrow> nat \<Rightarrow> text_state
     \<Rightarrow> text_state option" where
  "trie_match_loop 0 fuel fl cfg ext input_text word_start s =
     (if cur_pos s < length input_text then None else Some s)"
| "trie_match_loop (Suc n) fuel fl cfg ext input_text word_start s =
     (if cur_pos s < length input_text
      then
        (let s1 = s\<lparr>prev_unicode_char := cur_unicode_char s,
                    next_pos := snd (U8_NEXT ext input_text (cur_pos s)),
                    cur_unicode_char := fst (U8_NEXT ext input_text (cur_pos s))\<rparr>
         in if word_byte_length_so_far s1 + int (next_pos s1) - int (cur_pos s1)
                 > int (max_bytes_per_token cfg)
            then Some s1
            else
              (case text_char_step fuel fl cfg ext (drop word_start input_text)
                      (int word_start)
                      (substr input_text (cur_pos s1)
                         (int (next_pos s1) - int (cur_pos s1)))
                      (word s1) of
                 None \<Rightarrow> None
               | Some (False, st') \<Rightarrow> Some (s1\<lparr>word := st'\<rparr>)
               | Some (True, st') \<Rightarrow>
                   trie_match_loop n fuel fl cfg ext input_text word_start
                     (s1\<lparr>word := st',
                         word_byte_length_so_far :=
                           word_byte_length_so_far s1 + int (next_pos s1) - int (cur_pos s1),
                         cur_pos := next_pos s1\<rparr>)))
      else Some s)"

text \<open>The test of \<open>TokenizeTextImpl\<close> for a word boundary at the current character.\<close>

definition is_word_boundary :: "externals \<Rightarrow> text_state \<Rightarrow> bool" where
  "is_word_boundary ext s =
     (u_isUWhiteSpace ext (cur_unicode_char s) \<or>
      IsPunctuationOrChineseChar ext (cur_unicode_char s) \<or>
      (cur_pos s \<noteq> 0 \<and> IsPunctuationOrChineseChar ext (prev_unicode_char s)))"

text \<open>
  The code of one iteration of the outer loop after the label
  \<^verbatim>\<open>outside_trie_match_loop\<close>. The flag is false at the \<^verbatim>\<open>break\<close> that ends
  the outer loop. The view of the word at a boundary has length
  \<^verbatim>\<open>cur_pos - input_word_offset_in_text\<close>.
\<close>

definition outside_trie_match_loop ::
  "nat \<Rightarrow> flags \<Rightarrow> config \<Rightarrow> externals \<Rightarrow> string \<Rightarrow> nat \<Rightarrow> text_state
     \<Rightarrow> (bool \<times> text_state) option" where
  "outside_trie_match_loop fuel fl cfg ext input_text word_start s =
     (if cur_pos s \<ge> length input_text
      then
        (case HandleTheRemainingStringOnTriePath fuel fl cfg ext
                (drop word_start input_text) (int word_start)
                (original_num_tokens s) (word s) of
           None \<Rightarrow> None
         | Some (n, st') \<Rightarrow> Some (False, s\<lparr>original_num_tokens := n, word := st'\<rparr>))
      else if is_word_boundary ext s
      then
        (case HandleTheRemainingStringOnTriePath fuel fl cfg ext
                (take (cur_pos s - word_start) (drop word_start input_text))
                (int word_start) (original_num_tokens s) (word s) of
           None \<Rightarrow> None
         | Some (n, st') \<Rightarrow>
             Some (True,
               s\<lparr>original_num_tokens := n, word := st',
                 cur_pos := (if u_isUWhiteSpace ext (cur_unicode_char s)
                             then next_pos s else cur_pos s)\<rparr>))
      else
        (case SkipTheRemainingOfWordAndTrailingWhiteSpaces fuel ext input_text
                (next_pos s, next_pos s) of
           None \<Rightarrow> None
         | Some (end_of_word, pos) \<Rightarrow>
             (case ResetOutputAppendUnknownToken fl cfg (int word_start)
                     (int end_of_word - int word_start) (original_num_tokens s)
                     (out (word s)) of
                (n, ou) \<Rightarrow>
                  Some (True,
                    s\<lparr>cur_pos := pos, original_num_tokens := n,
                      word := (word s)\<lparr>out := ou\<rparr>\<rparr>))))"

text \<open>One iteration of the outer loop: the word that starts at \<open>cur_pos\<close>.\<close>

definition tokenize_word ::
  "nat \<Rightarrow> flags \<Rightarrow> config \<Rightarrow> externals \<Rightarrow> string \<Rightarrow> text_state
     \<Rightarrow> (bool \<times> text_state) option" where
  "tokenize_word fuel fl cfg ext input_text s =
     (case trie_match_loop fuel fuel fl cfg ext input_text (cur_pos s)
             (s\<lparr>word_byte_length_so_far := 0,
                word := \<lparr>cur_offset_in_input_word = 0, cur_node = kRootNodeId ext,
                         out = out (word s)\<rparr>\<rparr>) of
        None \<Rightarrow> None
      | Some s1 \<Rightarrow> outside_trie_match_loop fuel fl cfg ext input_text (cur_pos s) s1)"

fun text_loop ::
  "nat \<Rightarrow> nat \<Rightarrow> flags \<Rightarrow> config \<Rightarrow> externals \<Rightarrow> string \<Rightarrow> text_state
     \<Rightarrow> text_state option" where
  "text_loop 0 fuel fl cfg ext input_text s =
     (if cur_pos s < length input_text then None else Some s)"
| "text_loop (Suc n) fuel fl cfg ext input_text s =
     (if cur_pos s < length input_text
      then (case tokenize_word fuel fl cfg ext input_text s of
              None \<Rightarrow> None
            | Some (False, s') \<Rightarrow> Some s'
            | Some (True, s') \<Rightarrow> text_loop n fuel fl cfg ext input_text s')
      else Some s)"

definition initial_text_state :: "flags \<Rightarrow> externals \<Rightarrow> outputs \<Rightarrow> text_state" where
  "initial_text_state fl ext ou =
     \<lparr>cur_pos = 0, next_pos = 0,
      original_num_tokens = GetCurrentOutputSize fl ou,
      prev_unicode_char = 0, cur_unicode_char = 0,
      word_byte_length_so_far = 0,
      word = \<lparr>cur_offset_in_input_word = 0, cur_node = kRootNodeId ext, out = ou\<rparr>\<rparr>"

definition TokenizeTextImpl ::
  "nat \<Rightarrow> flags \<Rightarrow> config \<Rightarrow> externals \<Rightarrow> string \<Rightarrow> outputs \<Rightarrow> outputs option" where
  "TokenizeTextImpl fuel fl cfg ext input_text ou =
     (if input_text = [] then Some ou
      else map_option (\<lambda>s. out (word s))
             (text_loop fuel fuel fl cfg ext input_text (initial_text_state fl ext ou)))"

section \<open>The three overloads of Tokenize\<close>

definition all_outputs :: flags where
  "all_outputs = \<lparr>kGetPieces = True, kGetIds = True, kGetOffsets = True\<rparr>"

definition ids_and_offsets :: flags where
  "ids_and_offsets = \<lparr>kGetPieces = False, kGetIds = True, kGetOffsets = True\<rparr>"

definition ids_only :: flags where
  "ids_only = \<lparr>kGetPieces = False, kGetIds = True, kGetOffsets = False\<rparr>"

text \<open>
  \<open>Tokenize fl\<close> is the overload whose template arguments are \<open>fl\<close>; an output the
  overload does not take (a null pointer in the code) is a field left as it is.
\<close>

definition Tokenize ::
  "flags \<Rightarrow> nat \<Rightarrow> config \<Rightarrow> externals \<Rightarrow> string \<Rightarrow> outputs \<Rightarrow> int \<Rightarrow> outputs option" where
  "Tokenize fl fuel cfg ext input ou input_word_offset_in_text =
     (if end_to_end cfg then TokenizeTextImpl fuel fl cfg ext input ou
      else TokenizeSingleWordImpl fuel fl cfg ext input input_word_offset_in_text ou)"

section \<open>Detokenization\<close>

datatype status = FailedPreconditionError

text \<open>\<^verbatim>\<open>absl::StrJoin\<close> of a list of strings with a separator.\<close>

fun StrJoin :: "string list \<Rightarrow> string \<Rightarrow> string" where
  "StrJoin [] sep = []"
| "StrJoin [x] sep = x"
| "StrJoin (x # y # ys) sep = x @ sep @ StrJoin (y # ys) sep"

text \<open>
  The loop \<^verbatim>\<open>for (int id : input)\<close> of \<open>DetokenizeToTokens\<close> on the two local
  vectors. \<open>None\<close> is an id outside the vocabulary arrays (the index is unsigned in
  the code, so a negative id is outside too).
\<close>

fun detokenize_loop ::
  "config \<Rightarrow> int list \<Rightarrow> string list \<Rightarrow> string list
     \<Rightarrow> (string list \<times> string list) option" where
  "detokenize_loop cfg [] subwords output_tokens = Some (subwords, output_tokens)"
| "detokenize_loop cfg (i # ids) subwords output_tokens =
     (if i < 0 then None
      else
        (case Get (vocab_array cfg) (nat i) of
           None \<Rightarrow> None
         | Some vocab \<Rightarrow>
             (case Get (vocab_is_suffix_array cfg) (nat i) of
                None \<Rightarrow> None
              | Some is_suffix \<Rightarrow>
                  (let flushed = (subwords \<noteq> [] \<and> \<not> is_suffix);
                       output_tokens1 =
                         (if flushed then output_tokens @ [StrJoin subwords []]
                          else output_tokens);
                       subwords1 = (if flushed then [] else subwords);
                       subwords2 =
                         (if subwords1 = [] \<and> is_suffix
                          then subwords1 @ [suffix_indicator cfg] else subwords1)
                   in detokenize_loop cfg ids (subwords2 @ [vocab]) output_tokens1))))"

definition DetokenizeToTokens ::
  "config \<Rightarrow> int list \<Rightarrow> (status + string list) option" where
  "DetokenizeToTokens cfg input =
     (if \<not> support_detokenization cfg then Some (Inl FailedPreconditionError)
      else
        (case detokenize_loop cfg input [] [] of
           None \<Rightarrow> None
         | Some (subwords, output_tokens) \<Rightarrow>
             Some (Inr (if subwords \<noteq> [] then output_tokens @ [StrJoin subwords []]
                        else output_tokens))))"

definition Detokenize :: "config \<Rightarrow> int list \<Rightarrow> (status + string) option" where
  "Detokenize cfg input =
     (case DetokenizeToTokens cfg input of
        None \<Rightarrow> None
      | Some (Inl e) \<Rightarrow> Some (Inl e)
      | Some (Inr output_tokens) \<Rightarrow> Some (Inr (StrJoin output_tokens '' '')))"

section \<open>The example vocabulary of the source\<close>

text \<open>
  The comment in \<open>TokenizeSingleWordImpl\<close> gives the trie of the vocabulary
  \<open>{a, abcd, ##b, ##bc, ##z}\<close> with suffix indicator \<open>##\<close>: nodes \<open>0..9\<close> for the
  strings \<open>"", #, ##, a, ab, abc, abcd, ##b, ##bc, ##z\<close>, the failure pops
  \<open>[], [], [], [a], [a], [a], [abcd], [##b], [##bc], [##z]\<close> and the failure links
  \<open>null, null, null, 2, 7, 8, 2, 2, 2, 2\<close> (the table of the comment prints \<open>null\<close>
  for node 9, while the trace in the same comment follows \<open>f(9) -> 2\<close>; the example
  takes the link of the trace). The unknown token \<open>[UNK]\<close> is added as the
  sixth vocabulary entry. The example packs an encoded token as
  \<open>1000 * id + 10 * length + is_suffix\<close> and a failure pops reference as
  \<open>256 * offset + length\<close>, and decodes ASCII text.
\<close>

definition example_kNullNode :: nat where
  "example_kNullNode = 4294967295"

definition example_config :: config where
  "example_config =
     \<lparr>vocab_array = [''a'', ''abcd'', ''b'', ''bc'', ''z'', ''[UNK]''],
      vocab_is_suffix_array = [False, False, True, True, True, False],
      suffix_indicator = ''##'',
      unk_token = ''[UNK]'',
      unk_token_id = 5,
      max_bytes_per_token = 100,
      end_to_end = False,
      support_detokenization = True,
      failure_struct_array =
        [\<lparr>failure_link = example_kNullNode, failure_pops_offset_length = 0\<rparr>,
         \<lparr>failure_link = example_kNullNode, failure_pops_offset_length = 0\<rparr>,
         \<lparr>failure_link = example_kNullNode, failure_pops_offset_length = 0\<rparr>,
         \<lparr>failure_link = 2, failure_pops_offset_length = 1\<rparr>,
         \<lparr>failure_link = 7, failure_pops_offset_length = 1\<rparr>,
         \<lparr>failure_link = 8, failure_pops_offset_length = 1\<rparr>,
         \<lparr>failure_link = 2, failure_pops_offset_length = 257\<rparr>,
         \<lparr>failure_link = 2, failure_pops_offset_length = 513\<rparr>,
         \<lparr>failure_link = 2, failure_pops_offset_length = 769\<rparr>,
         \<lparr>failure_link = 2, failure_pops_offset_length = 1025\<rparr>],
      failure_pops_pool = [10, 1040, 2011, 3021, 4011],
      precomputed_result_for_suffix_indicator = [5050],
      trie_suffix_root = 2,
      trie_punct_failure_link_node = example_kNullNode\<rparr>"

definition example_externals :: externals where
  "example_externals =
     \<lparr>TryTraverseOneStep = (\<lambda>n c. map_of
        [((0, CHR ''a''), 3), ((3, CHR ''b''), 4), ((4, CHR ''c''), 5),
         ((5, CHR ''d''), 6), ((0, CHR ''#''), 1), ((1, CHR ''#''), 2),
         ((2, CHR ''b''), 7), ((7, CHR ''c''), 8), ((2, CHR ''z''), 9)] (n, c)),
      TryGetData = map_of [(3, 10), (6, 1040), (7, 2011), (8, 3021), (9, 4011)],
      kRootNodeId = 0,
      kNullNode = example_kNullNode,
      GetTokenId = (\<lambda>v. v div 1000),
      GetTokenLength = (\<lambda>v. nat ((v mod 1000) div 10)),
      IsSuffixToken = (\<lambda>v. v mod 10 = 1),
      GetFailurePopsOffsetAndLength = (\<lambda>x. (x div 256, x mod 256)),
      U8_NEXT = (\<lambda>text i. (int (of_char (text ! i)), i + 1)),
      u_isUWhiteSpace = (\<lambda>c. c = 32 \<or> (9 \<le> c \<and> c \<le> 13)),
      IsPunctuationOrChineseChar = (\<lambda>c. (33 \<le> c \<and> c \<le> 47) \<or> (58 \<le> c \<and> c \<le> 64) \<or>
                                         (91 \<le> c \<and> c \<le> 96) \<or> (123 \<le> c \<and> c \<le> 126))\<rparr>"

definition no_outputs :: outputs where
  "no_outputs =
     \<lparr>output_pieces = [], output_ids = [], output_start_offsets = [],
      output_end_offsets = []\<rparr>"

section \<open>Predicates on the outputs\<close>

text \<open>
  The output vectors a call writes to (those its template flags select) have the
  same length, that of the vector \<open>GetCurrentOutputSize\<close> measures.
\<close>

definition aligned :: "flags \<Rightarrow> outputs \<Rightarrow> bool" where
  "aligned fl ou =
     ((kGetPieces fl \<or> kGetIds fl) \<and>
      (kGetIds fl \<longrightarrow> length (output_ids ou) = GetCurrentOutputSize fl ou) \<and>
      (kGetOffsets fl \<longrightarrow>
         length (output_start_offsets ou) = GetCurrentOutputSize fl ou \<and>
         length (output_end_offsets ou) = GetCurrentOutputSize fl ou))"

text \<open>
  \<open>keeps fl m ou cur\<close>: the outputs \<open>cur\<close> have at least \<open>m\<close> entries in each vector
  that is written to and agree with \<open>ou\<close> on the first \<open>m\<close> entries; a vector that is
  not written to is the same in both.
\<close>

definition keeps :: "flags \<Rightarrow> nat \<Rightarrow> outputs \<Rightarrow> outputs \<Rightarrow> bool" where
  "keeps fl m ou cur =
     ((if kGetPieces fl
       then m \<le> length (output_pieces cur) \<and>
            take m (output_pieces cur) = take m (output_pieces ou)
       else output_pieces cur = output_pieces ou) \<and>
      (if kGetIds fl
       then m \<le> length (output_ids cur) \<and>
            take m (output_ids cur) = take m (output_ids ou)
       else output_ids cur = output_ids ou) \<and>
      (if kGetOffsets fl
       then m \<le> length (output_start_offsets cur) \<and>
            take m (output_start_offsets cur) = take m (output_start_offsets ou) \<and>
            m \<le> length (output_end_offsets cur) \<and>
            take m (output_end_offsets cur) = take m (output_end_offsets ou)
       else output_start_offsets cur = output_start_offsets ou \<and>
            output_end_offsets cur = output_end_offsets ou))"

text \<open>
  The outputs \<open>ou\<close> with one unknown token appended to each vector that is written
  to: id \<open>unk_token_id\<close>, piece \<open>unk_token\<close>, offsets \<open>[w, w + n)\<close>.
\<close>

definition append_unknown :: "flags \<Rightarrow> config \<Rightarrow> int \<Rightarrow> int \<Rightarrow> outputs \<Rightarrow> outputs" where
  "append_unknown fl cfg w n ou =
     \<lparr>output_pieces =
        (if kGetPieces fl then output_pieces ou @ [unk_token cfg] else output_pieces ou),
      output_ids =
        (if kGetIds fl then output_ids ou @ [unk_token_id cfg] else output_ids ou),
      output_start_offsets =
        (if kGetOffsets fl then output_start_offsets ou @ [w]
         else output_start_offsets ou),
      output_end_offsets =
        (if kGetOffsets fl then output_end_offsets ou @ [w + n]
         else output_end_offsets ou)\<rparr>"

section \<open>The detokenizer as the specification words it\<close>

text \<open>
  The rule of the specification for one id, on the pair of the pending subwords and
  the completed words: a token that is not a suffix flushes a pending list that is
  not empty; a suffix token that finds the pending list empty pushes the suffix
  indicator first; then the vocabulary entry is pushed.
\<close>

definition spec_detokenize_step ::
  "config \<Rightarrow> string list \<times> string list \<Rightarrow> int \<Rightarrow> string list \<times> string list" where
  "spec_detokenize_step cfg pw i =
     (let is_suffix = vocab_is_suffix_array cfg ! nat i;
          pw1 = (if \<not> is_suffix \<and> fst pw \<noteq> []
                 then ([], snd pw @ [concat (fst pw)]) else pw);
          pw2 = (if is_suffix \<and> fst pw1 = []
                 then ([suffix_indicator cfg], snd pw1) else pw1)
      in (fst pw2 @ [vocab_array cfg ! nat i], snd pw2))"

text \<open>Flushing the pending subwords at the end: a pending word, if there is one.\<close>

definition spec_flush :: "string list \<times> string list \<Rightarrow> string list" where
  "spec_flush pw = (if fst pw = [] then snd pw else snd pw @ [concat (fst pw)])"

definition spec_detokenize_to_tokens :: "config \<Rightarrow> int list \<Rightarrow> string list" where
  "spec_detokenize_to_tokens cfg ids = spec_flush (foldl (spec_detokenize_step cfg) ([], []) ids)"

text \<open>Words joined by a single space.\<close>

definition spec_join_by_space :: "string list \<Rightarrow> string" where
  "spec_join_by_space ws =
     (case ws of [] \<Rightarrow> [] | x # xs \<Rightarrow> x @ concat (map (\<lambda>y. '' '' @ y) xs))"

text \<open>The ids that index the two vocabulary arrays.\<close>

definition ids_in_vocab :: "config \<Rightarrow> int list \<Rightarrow> bool" where
  "ids_in_vocab cfg ids =
     list_all (\<lambda>i. 0 \<le> i \<and> nat i < length (vocab_array cfg) \<and>
                    nat i < length (vocab_is_suffix_array cfg)) ids"

section \<open>The states of the end-to-end loop\<close>

text \<open>
  The states in which the outer \<^verbatim>\<open>while\<close> loop of \<open>TokenizeTextImpl\<close> tests its
  condition: the state before the loop, and the state after each iteration that
  does not leave the loop.
\<close>

inductive outer_loop_state ::
  "nat \<Rightarrow> flags \<Rightarrow> config \<Rightarrow> externals \<Rightarrow> string \<Rightarrow> outputs \<Rightarrow> text_state \<Rightarrow> bool"
  for fuel fl cfg ext input_text ou where
  first: "outer_loop_state fuel fl cfg ext input_text ou (initial_text_state fl ext ou)"
| next_word:
    "outer_loop_state fuel fl cfg ext input_text ou s \<Longrightarrow>
     cur_pos s < length input_text \<Longrightarrow>
     tokenize_word fuel fl cfg ext input_text s = Some (True, s') \<Longrightarrow>
     outer_loop_state fuel fl cfg ext input_text ou s'"

text \<open>The state in which the trie matching loop of the word at \<open>cur_pos s\<close> starts.\<close>

definition word_start_state :: "externals \<Rightarrow> text_state \<Rightarrow> text_state" where
  "word_start_state ext s =
     s\<lparr>word_byte_length_so_far := 0,
       word := \<lparr>cur_offset_in_input_word = 0, cur_node = kRootNodeId ext,
                out = out (word s)\<rparr>\<rparr>"

text \<open>
  What ICU promises of \<^verbatim>\<open>U8_NEXT\<close>: inside the text it advances the index.
\<close>

definition decoder_advances :: "externals \<Rightarrow> string \<Rightarrow> bool" where
  "decoder_advances ext input_text =
     (\<forall>i < length input_text. i < snd (U8_NEXT ext input_text i))"


text \<open>
  Two properties of a trie and of the failure links the builder computes: no edge
  leads to the root, and no failure link is the root.
\<close>

definition no_edge_to_root :: "externals \<Rightarrow> bool" where
  "no_edge_to_root ext = (\<forall>n c. TryTraverseOneStep ext n c \<noteq> Some (kRootNodeId ext))"

definition no_failure_link_to_root :: "config \<Rightarrow> externals \<Rightarrow> bool" where
  "no_failure_link_to_root cfg ext =
     (\<forall>aux \<in> set (failure_struct_array cfg). failure_link aux \<noteq> kRootNodeId ext)"

section \<open>Offsets moved by a word offset\<close>




text \<open>The number of input bytes \<open>AppendTokenToOutput\<close> gives a token at offset \<open>off\<close>.\<close>

definition token_substr_length :: "config \<Rightarrow> externals \<Rightarrow> nat \<Rightarrow> int \<Rightarrow> nat" where
  "token_substr_length cfg ext off v =
     GetTokenLength ext v +
     (if off = 0 \<and> IsSuffixToken ext v then length (suffix_indicator cfg) else 0)"

section \<open>Models whose trie and failure tables agree with the vocabulary\<close>

definition is_suffix_id :: "config \<Rightarrow> int \<Rightarrow> bool" where
  "is_suffix_id cfg i = (vocab_is_suffix_array cfg ! nat i)"

definition vocab_entry :: "config \<Rightarrow> int \<Rightarrow> string" where
  "vocab_entry cfg i = (vocab_array cfg ! nat i)"

text \<open>
  Ids that the detokenizer puts into one word: a first token followed by suffix
  tokens only, all inside the vocabulary.
\<close>

definition one_word :: "config \<Rightarrow> int list \<Rightarrow> bool" where
  "one_word cfg ids =
     (ids \<noteq> [] \<and> ids_in_vocab cfg ids \<and> list_all (is_suffix_id cfg) (tl ids))"

text \<open>
  The word these ids stand for: the vocabulary entries in order, behind the suffix
  indicator when the first token is a suffix token.
\<close>

definition word_of_ids :: "config \<Rightarrow> int list \<Rightarrow> string" where
  "word_of_ids cfg ids =
     (if ids \<noteq> [] \<and> is_suffix_id cfg (hd ids) then suffix_indicator cfg else []) @
     concat (map (vocab_entry cfg) ids)"

text \<open>
  The token ids \<open>TryFollowFailureLinkAndCollectTokens\<close> emits at node \<open>n\<close> and the
  node it moves to, when it returns true.
\<close>

definition failure_transition :: "config \<Rightarrow> externals \<Rightarrow> nat \<Rightarrow> (int list \<times> nat) option" where
  "failure_transition cfg ext n =
     (case Get (failure_struct_array cfg) n of
        None \<Rightarrow> None
      | Some aux \<Rightarrow>
          (case TryGetData ext n of
             Some v \<Rightarrow> Some ([GetTokenId ext v], failure_link aux)
           | None \<Rightarrow>
               if failure_link aux = kNullNode ext then None
               else
                 (let off = fst (GetFailurePopsOffsetAndLength ext
                                   (failure_pops_offset_length aux));
                      len = snd (GetFailurePopsOffsetAndLength ext
                                   (failure_pops_offset_length aux))
                  in if len = 0 \<or> off + len \<le> length (failure_pops_pool cfg)
                     then Some (map (GetTokenId ext)
                                  (take len (drop off (failure_pops_pool cfg))),
                                failure_link aux)
                     else None)))"

text \<open>
  A failure transition from a node with string \<open>s\<close> to a node with string \<open>t\<close> that
  pops the ids \<open>ps\<close> agrees with the vocabulary: \<open>t\<close> is the suffix indicator followed
  by what is left of \<open>s\<close> after the popped tokens; the popped tokens are suffix tokens,
  except the first one when \<open>s\<close> does not start with the suffix indicator.
\<close>

definition transition_consistent :: "config \<Rightarrow> string \<Rightarrow> int list \<Rightarrow> string \<Rightarrow> bool" where
  "transition_consistent cfg s ps t =
     (ps \<noteq> [] \<and> ids_in_vocab cfg ps \<and> list_all (is_suffix_id cfg) (tl ps) \<and>
      take (length (suffix_indicator cfg)) t = suffix_indicator cfg \<and>
      (if take (length (suffix_indicator cfg)) s = suffix_indicator cfg
       then is_suffix_id cfg (hd ps) \<and>
            drop (length (suffix_indicator cfg)) s =
              concat (map (vocab_entry cfg) ps) @ drop (length (suffix_indicator cfg)) t
       else \<not> is_suffix_id cfg (hd ps) \<and>
            s = concat (map (vocab_entry cfg) ps) @ drop (length (suffix_indicator cfg)) t))"

text \<open>
  \<open>consistent_model cfg ext str\<close>: \<open>str\<close> gives every trie node its string; the
  strings follow the edges; \<open>trie_suffix_root\<close> and the punctuation failure node
  stand for the suffix indicator with nothing behind it; no edge leads to the
  punctuation failure node; every failure transition that pops no unknown token
  agrees with the vocabulary; and so does the precomputed result for the suffix
  indicator, unless it is the single unknown token.
\<close>

definition consistent_model :: "config \<Rightarrow> externals \<Rightarrow> (nat \<Rightarrow> string) \<Rightarrow> bool" where
  "consistent_model cfg ext str =
     (str (kRootNodeId ext) = [] \<and>
      kRootNodeId ext \<noteq> trie_punct_failure_link_node cfg \<and>
      (\<forall>n c n'. TryTraverseOneStep ext n c = Some n' \<longrightarrow>
         str n' = str n @ [c] \<and> n' \<noteq> trie_punct_failure_link_node cfg) \<and>
      str (trie_suffix_root cfg) = suffix_indicator cfg \<and>
      str (trie_punct_failure_link_node cfg) = suffix_indicator cfg \<and>
      (\<forall>n ps f. failure_transition cfg ext n = Some (ps, f) \<and>
         unk_token_id cfg \<notin> set ps \<longrightarrow>
         transition_consistent cfg (str n) ps (str f)) \<and>
      (unk_token_id cfg \<notin>
         set (map (GetTokenId ext) (precomputed_result_for_suffix_indicator cfg)) \<longrightarrow>
       one_word cfg (map (GetTokenId ext) (precomputed_result_for_suffix_indicator cfg)) \<and>
       word_of_ids cfg (map (GetTokenId ext) (precomputed_result_for_suffix_indicator cfg)) =
         suffix_indicator cfg))"

text \<open>
  \<open>tracks cfg str p n ids\<close>: after the bytes \<open>p\<close> of a word, with the cursor at node
  \<open>n\<close> and the ids \<open>ids\<close> emitted for the word, the emitted tokens and the string of
  the node make up \<open>p\<close>.
\<close>

definition tracks :: "config \<Rightarrow> (nat \<Rightarrow> string) \<Rightarrow> string \<Rightarrow> nat \<Rightarrow> int list \<Rightarrow> bool" where
  "tracks cfg str p n ids =
     (if ids = []
      then str n = p \<and> n \<noteq> trie_punct_failure_link_node cfg
      else one_word cfg ids \<and>
           take (length (suffix_indicator cfg)) (str n) = suffix_indicator cfg \<and>
           word_of_ids cfg ids @ drop (length (suffix_indicator cfg)) (str n) = p)"

text \<open>
  \<open>follows fl cfg str ids0 p st\<close>: the state of a word whose outputs started with
  the ids \<open>ids0\<close>, after the bytes \<open>p\<close>: the vectors written to have the same length,
  and the ids emitted for the word either contain the unknown id or track \<open>p\<close>.
\<close>

definition follows ::
  "flags \<Rightarrow> config \<Rightarrow> (nat \<Rightarrow> string) \<Rightarrow> int list \<Rightarrow> string \<Rightarrow> word_state \<Rightarrow> bool" where
  "follows fl cfg str ids0 p st =
     (aligned fl (out st) \<and>
      (\<exists>ids. output_ids (out st) = ids0 @ ids \<and>
         (unk_token_id cfg \<in> set ids \<or> tracks cfg str p (cur_node st) ids)))"

text \<open>The strings of the ten nodes of the example trie.\<close>

definition example_node_string :: "nat \<Rightarrow> string" where
  "example_node_string n =
     (if n < 10
      then [[], ''#'', ''##'', ''a'', ''ab'', ''abc'', ''abcd'', ''##b'', ''##bc'', ''##z''] ! n
      else ''##'')"

section \<open>Two more models\<close>

text \<open>
  A model with a punctuation mark in the vocabulary \<open>{a, !, [UNK]}\<close>, suffix
  indicator \<open>##\<close>: nodes \<open>0..5\<close> for the root, \<open>#\<close>, \<open>##\<close> (the suffix root), \<open>a\<close>,
  \<open>!\<close> and the node \<open>trie_punct_failure_link_node\<close>, which has no edge and no
  failure link. The failure link of \<open>a\<close> is the suffix root and that of \<open>!\<close> the
  punctuation node; each of the two pops its own token. Encoded tokens, failure
  pops references and the decoder are those of the example above.
\<close>

definition punct_config :: config where
  "punct_config =
     \<lparr>vocab_array = [''a'', ''!'', ''[UNK]''],
      vocab_is_suffix_array = [False, False, False],
      suffix_indicator = ''##'',
      unk_token = ''[UNK]'',
      unk_token_id = 2,
      max_bytes_per_token = 100,
      end_to_end = True,
      support_detokenization = True,
      failure_struct_array =
        [\<lparr>failure_link = example_kNullNode, failure_pops_offset_length = 0\<rparr>,
         \<lparr>failure_link = example_kNullNode, failure_pops_offset_length = 0\<rparr>,
         \<lparr>failure_link = example_kNullNode, failure_pops_offset_length = 0\<rparr>,
         \<lparr>failure_link = 2, failure_pops_offset_length = 1\<rparr>,
         \<lparr>failure_link = 5, failure_pops_offset_length = 257\<rparr>,
         \<lparr>failure_link = example_kNullNode, failure_pops_offset_length = 0\<rparr>],
      failure_pops_pool = [10, 1010],
      precomputed_result_for_suffix_indicator = [2020],
      trie_suffix_root = 2,
      trie_punct_failure_link_node = 5\<rparr>"

definition punct_externals :: externals where
  "punct_externals =
     example_externals
       \<lparr>TryTraverseOneStep := (\<lambda>n c. map_of
          [((0, CHR ''a''), 3), ((0, CHR ''!''), 4), ((0, CHR ''#''), 1),
           ((1, CHR ''#''), 2)] (n, c)),
        TryGetData := map_of [(3, 10), (4, 1010)]\<rparr>"

text \<open>
  A model with the empty suffix indicator, which the specification allows
  (\<open>suffix_indicator\<close> has length \<open>\<ge> 0\<close>), vocabulary \<open>{a, [UNK]}\<close>. The node reached
  by the suffix indicator from the root is the root itself, so \<open>trie_suffix_root\<close>
  is the root; node 1 is \<open>a\<close>, with its own token as failure pop and the suffix root
  as failure link; node 2 is \<open>trie_punct_failure_link_node\<close>. Every vocabulary entry
  begins with the empty suffix indicator. The word that is the suffix indicator is
  the empty word, whose tokenization is empty.
\<close>

definition plain_config :: config where
  "plain_config =
     \<lparr>vocab_array = [''a'', ''[UNK]''],
      vocab_is_suffix_array = [True, True],
      suffix_indicator = [],
      unk_token = ''[UNK]'',
      unk_token_id = 1,
      max_bytes_per_token = 100,
      end_to_end = True,
      support_detokenization = True,
      failure_struct_array =
        [\<lparr>failure_link = example_kNullNode, failure_pops_offset_length = 0\<rparr>,
         \<lparr>failure_link = 0, failure_pops_offset_length = 1\<rparr>,
         \<lparr>failure_link = example_kNullNode, failure_pops_offset_length = 0\<rparr>],
      failure_pops_pool = [11],
      precomputed_result_for_suffix_indicator = [],
      trie_suffix_root = 0,
      trie_punct_failure_link_node = 2\<rparr>"

definition plain_externals :: externals where
  "plain_externals =
     example_externals
       \<lparr>TryTraverseOneStep := (\<lambda>n c. map_of [((0, CHR ''a''), 1)] (n, c)),
        TryGetData := map_of [(1, 11)]\<rparr>"

section \<open>The code points of the text\<close>

text \<open>
  \<open>code_point_starts ext text a q\<close>: decoding the text code point by code point from
  the index \<open>a\<close> arrives at the index \<open>q\<close>.
\<close>

inductive code_point_starts :: "externals \<Rightarrow> string \<Rightarrow> nat \<Rightarrow> nat \<Rightarrow> bool"
  for ext input_text a where
  here: "code_point_starts ext input_text a a"
| after: "code_point_starts ext input_text a q \<Longrightarrow> q < length input_text \<Longrightarrow>
          code_point_starts ext input_text a (snd (U8_NEXT ext input_text q))"




section \<open>Evaluating the loops on numerals\<close>

lemma remaining_loop_numeral:
  "remaining_loop (numeral k) fl cfg ext iw w st =
     (if cur_node st \<noteq> trie_suffix_root cfg \<and>
         cur_node st \<noteq> trie_punct_failure_link_node cfg
      then (case TryFollowFailureLinkAndCollectTokens fl cfg ext iw w st of
              None \<Rightarrow> None
            | Some (False, st') \<Rightarrow> Some (False, st')
            | Some (True, st') \<Rightarrow> remaining_loop (pred_numeral k) fl cfg ext iw w st')
      else Some (True, st))"
  by (simp add: numeral_eq_Suc)

lemma single_word_step_numeral:
  "single_word_step (numeral k) fl cfg ext iw w ch st =
     (case TryTraverseOneStep ext (cur_node st) ch of
        Some n' \<Rightarrow> Some (True, st\<lparr>cur_node := n'\<rparr>)
      | None \<Rightarrow>
          (case TryFollowFailureLinkAndCollectTokens fl cfg ext iw w st of
             None \<Rightarrow> None
           | Some (False, st') \<Rightarrow> Some (False, st')
           | Some (True, st') \<Rightarrow> single_word_step (pred_numeral k) fl cfg ext iw w ch st'))"
  by (simp add: numeral_eq_Suc)

lemmas example_defs =
  example_config_def example_externals_def example_kNullNode_def no_outputs_def
  all_outputs_def ids_and_offsets_def ids_only_def

lemmas word_defs =
  Get_def resize_def set_back_def GetCurrentOutputSize_def
  ResetOutputAppendUnknownToken_def AppendTokenToOutput_def
  TryFollowFailureLinkAndCollectTokens_def
  TryHandleTheInputWordBeingSuffixIndicatorItself_def
  HandleTheRemainingStringOnTriePath_def TokenizeSingleWordImpl_def Let_def
  single_word_step_numeral remaining_loop_numeral

section \<open>The failure transition\<close>

lemma collect_failure_pops_foldl:
  "off + k \<le> length (failure_pops_pool cfg) \<Longrightarrow>
   collect_failure_pops fl cfg ext iw w k off st =
     Some (foldl (\<lambda>s v. AppendTokenToOutput fl cfg ext iw w v s) st
             (take k (drop off (failure_pops_pool cfg))))"
proof (induction k arbitrary: off st)
  case 0
  then show ?case by simp
next
  case (Suc k)
  from Suc.prems have lt: "off < length (failure_pops_pool cfg)" by simp
  have dr: "drop off (failure_pops_pool cfg) =
              failure_pops_pool cfg ! off # drop (Suc off) (failure_pops_pool cfg)"
    using lt by (simp add: Cons_nth_drop_Suc)
  from Suc.prems have "Suc off + k \<le> length (failure_pops_pool cfg)" by simp
  from Suc.IH [OF this] show ?case
    using lt by (simp add: Get_def dr)
qed

text \<open>
  Claim C1. At a node \<open>cur_node st\<close> whose failure struct is \<open>aux\<close>, the failure
  transition does one of three things. If the node carries the encoded token \<open>v\<close>,
  it emits \<open>v\<close>, moves the cursor to \<open>failure_link aux\<close> and returns true. If the
  node carries no token and its failure link is \<open>kNullNode\<close>, it returns false and
  leaves the cursor, the offset and the outputs as they were. Otherwise it emits the
  tokens \<open>failure_pops_pool[off .. off+len)\<close> in pool order, then moves the cursor to
  the failure link and returns true.
\<close>

theorem follow_failure_link:
  "(TryGetData ext (cur_node st) = Some v \<and>
    Get (failure_struct_array cfg) (cur_node st) = Some aux \<longrightarrow>
      TryFollowFailureLinkAndCollectTokens fl cfg ext iw w st =
        Some (True, (AppendTokenToOutput fl cfg ext iw w v st)
                      \<lparr>cur_node := failure_link aux\<rparr>)) \<and>
   (TryGetData ext (cur_node st) = None \<and>
    Get (failure_struct_array cfg) (cur_node st) = Some aux \<and>
    failure_link aux = kNullNode ext \<longrightarrow>
      TryFollowFailureLinkAndCollectTokens fl cfg ext iw w st = Some (False, st)) \<and>
   (TryGetData ext (cur_node st) = None \<and>
    Get (failure_struct_array cfg) (cur_node st) = Some aux \<and>
    failure_link aux \<noteq> kNullNode ext \<and>
    GetFailurePopsOffsetAndLength ext (failure_pops_offset_length aux) = (off, len) \<and>
    off + len \<le> length (failure_pops_pool cfg) \<longrightarrow>
      TryFollowFailureLinkAndCollectTokens fl cfg ext iw w st =
        Some (True,
          (foldl (\<lambda>s v. AppendTokenToOutput fl cfg ext iw w v s) st
             (take len (drop off (failure_pops_pool cfg))))
            \<lparr>cur_node := failure_link aux\<rparr>))"
  by (simp add: TryFollowFailureLinkAndCollectTokens_def collect_failure_pops_foldl)

text \<open>
  On the example, in the word \<open>abcz\<close>: node 3 (\<open>a\<close>) carries a token, node 2 (\<open>##\<close>)
  has no failure link, node 5 (\<open>abc\<close>) pops \<open>[a]\<close> from the pool and links to node 8.
\<close>

theorem follow_failure_link_witness:
  "TryFollowFailureLinkAndCollectTokens all_outputs example_config example_externals
     ''abcz'' 0 \<lparr>cur_offset_in_input_word = 0, cur_node = 3, out = no_outputs\<rparr> =
     Some (True, \<lparr>cur_offset_in_input_word = 1, cur_node = 2,
                  out = \<lparr>output_pieces = [''a''], output_ids = [0],
                         output_start_offsets = [0], output_end_offsets = [1]\<rparr>\<rparr>) \<and>
   TryFollowFailureLinkAndCollectTokens all_outputs example_config example_externals
     ''abcz'' 0 \<lparr>cur_offset_in_input_word = 0, cur_node = 2, out = no_outputs\<rparr> =
     Some (False, \<lparr>cur_offset_in_input_word = 0, cur_node = 2, out = no_outputs\<rparr>) \<and>
   TryFollowFailureLinkAndCollectTokens all_outputs example_config example_externals
     ''abcz'' 0 \<lparr>cur_offset_in_input_word = 0, cur_node = 5, out = no_outputs\<rparr> =
     Some (True, \<lparr>cur_offset_in_input_word = 1, cur_node = 8,
                  out = \<lparr>output_pieces = [''a''], output_ids = [0],
                         output_start_offsets = [0], output_end_offsets = [1]\<rparr>\<rparr>)"
proof -
  have a: "TryGetData example_externals 3 = Some 10"
    and b: "TryGetData example_externals 2 = None"
    and c: "TryGetData example_externals 5 = None"
    by (simp_all add: example_defs)
  have a': "Get (failure_struct_array example_config) 3 =
              Some \<lparr>failure_link = 2, failure_pops_offset_length = 1\<rparr>"
    and b': "Get (failure_struct_array example_config) 2 =
              Some \<lparr>failure_link = example_kNullNode, failure_pops_offset_length = 0\<rparr>"
    and c': "Get (failure_struct_array example_config) 5 =
              Some \<lparr>failure_link = 8, failure_pops_offset_length = 1\<rparr>"
    by (simp_all add: example_defs Get_def)
  have d: "GetFailurePopsOffsetAndLength example_externals 1 = (0, 1)"
    and e: "kNullNode example_externals = example_kNullNode"
    and f: "failure_pops_pool example_config = [10, 1040, 2011, 3021, 4011]"
    by (simp_all add: example_defs)
  show ?thesis
    using follow_failure_link
            [of example_externals
                "\<lparr>cur_offset_in_input_word = 0, cur_node = 3, out = no_outputs\<rparr>" 10
                example_config "\<lparr>failure_link = 2, failure_pops_offset_length = 1\<rparr>"
                all_outputs "''abcz''" 0 0 0]
          follow_failure_link
            [of example_externals
                "\<lparr>cur_offset_in_input_word = 0, cur_node = 2, out = no_outputs\<rparr>" 0
                example_config
                "\<lparr>failure_link = example_kNullNode, failure_pops_offset_length = 0\<rparr>"
                all_outputs "''abcz''" 0 0 0]
          follow_failure_link
            [of example_externals
                "\<lparr>cur_offset_in_input_word = 0, cur_node = 5, out = no_outputs\<rparr>" 0
                example_config "\<lparr>failure_link = 8, failure_pops_offset_length = 1\<rparr>"
                all_outputs "''abcz''" 0 0 1]
          a b c a' b' c' d e f
    by (simp add: AppendTokenToOutput_def Let_def example_defs)
qed

section \<open>The empty input\<close>

text \<open>
  Claim C10. On the empty input the single-word tokenizer, the end-to-end tokenizer
  and each of the three overloads of \<open>Tokenize\<close> (whatever the configuration, the
  word offset and the fuel) return at once with the four output vectors as the caller
  passed them.
\<close>

theorem empty_input_appends_nothing:
  "TokenizeSingleWordImpl fuel fl cfg ext [] w ou = Some ou \<and>
   TokenizeTextImpl fuel fl cfg ext [] ou = Some ou \<and>
   Tokenize all_outputs fuel cfg ext [] ou w = Some ou \<and>
   Tokenize ids_and_offsets fuel cfg ext [] ou w = Some ou \<and>
   Tokenize ids_only fuel cfg ext [] ou w = Some ou"
  by (simp add: TokenizeSingleWordImpl_def TokenizeTextImpl_def Tokenize_def)

theorem empty_input_appends_nothing_witness:
  "Tokenize all_outputs 0 example_config example_externals []
     \<lparr>output_pieces = [''x''], output_ids = [9], output_start_offsets = [0],
      output_end_offsets = [1]\<rparr> 4 =
   Some \<lparr>output_pieces = [''x''], output_ids = [9], output_start_offsets = [0],
         output_end_offsets = [1]\<rparr>"
  using empty_input_appends_nothing
          [of 0 all_outputs example_config example_externals 4
              "\<lparr>output_pieces = [''x''], output_ids = [9], output_start_offsets = [0],
                output_end_offsets = [1]\<rparr>"]
  by simp

section \<open>The detokenizer\<close>

text \<open>
  Claim C7. \<open>DetokenizeToTokens\<close>, and hence \<open>Detokenize\<close>, returns the failed
  precondition status exactly when \<open>support_detokenization\<close> is false, for every id
  sequence; and then it returns no words (no string).
\<close>

theorem detokenize_precondition:
  "(DetokenizeToTokens cfg ids = Some (Inl FailedPreconditionError)) =
     (\<not> support_detokenization cfg) \<and>
   (Detokenize cfg ids = Some (Inl FailedPreconditionError)) =
     (\<not> support_detokenization cfg) \<and>
   (\<not> support_detokenization cfg \<longrightarrow>
      (\<forall>ws. DetokenizeToTokens cfg ids \<noteq> Some (Inr ws)) \<and>
      (\<forall>s. Detokenize cfg ids \<noteq> Some (Inr s)))"
  by (auto simp: DetokenizeToTokens_def Detokenize_def
           split: if_splits option.splits prod.splits sum.splits)

theorem detokenize_precondition_witness:
  "DetokenizeToTokens (example_config\<lparr>support_detokenization := False\<rparr>) [0, 3, 4] =
     Some (Inl FailedPreconditionError) \<and>
   Detokenize (example_config\<lparr>support_detokenization := False\<rparr>) [0, 3, 4] =
     Some (Inl FailedPreconditionError) \<and>
   DetokenizeToTokens example_config [0, 3, 4] \<noteq> Some (Inl FailedPreconditionError)"
  using detokenize_precondition
          [of "example_config\<lparr>support_detokenization := False\<rparr>" "[0, 3, 4]"]
        detokenize_precondition [of example_config "[0, 3, 4]"]
  by (simp add: example_config_def)

section \<open>Rolling back and emitting the unknown token\<close>

lemma set_back_resize_keeps:
  assumes "m \<le> length xs"
  shows "set_back x (resize d (Suc m) xs) = take m xs @ [x]"
proof (cases "m < length xs")
  case True
  then have "take (Suc m) xs = take m xs @ [xs ! m]" by (simp add: take_Suc_conv_app_nth)
  with True show ?thesis by (simp add: set_back_def resize_def list_update_append)
next
  case False
  with assms have "m = length xs" by simp
  then show ?thesis by (simp add: set_back_def resize_def)
qed

lemma Reset_keeps:
  assumes "keeps fl m ou cur"
  shows "ResetOutputAppendUnknownToken fl cfg w n m cur =
           (Suc m, append_unknown fl cfg w n
                     \<lparr>output_pieces = (if kGetPieces fl then take m (output_pieces ou) else output_pieces ou),
                      output_ids = (if kGetIds fl then take m (output_ids ou) else output_ids ou),
                      output_start_offsets = (if kGetOffsets fl then take m (output_start_offsets ou) else output_start_offsets ou),
                      output_end_offsets = (if kGetOffsets fl then take m (output_end_offsets ou) else output_end_offsets ou)\<rparr>)"
  using assms
  by (simp add: ResetOutputAppendUnknownToken_def keeps_def append_unknown_def Let_def set_back_resize_keeps)

lemma Reset_aligned:
  assumes "aligned fl ou" "keeps fl (GetCurrentOutputSize fl ou) ou cur"
  shows "ResetOutputAppendUnknownToken fl cfg w n (GetCurrentOutputSize fl ou) cur =
           (Suc (GetCurrentOutputSize fl ou), append_unknown fl cfg w n ou)"
  using assms(1) unfolding Reset_keeps [OF assms(2)]
  by (auto simp: aligned_def GetCurrentOutputSize_def append_unknown_def)


subsection \<open>Invariants of the loops that only emit tokens and move the cursor\<close>

lemma collect_failure_pops_invariant:
  assumes app: "\<And>v s. P s \<Longrightarrow> P (AppendTokenToOutput fl cfg ext iw w v s)"
  shows "P st \<Longrightarrow> collect_failure_pops fl cfg ext iw w k off st = Some st' \<Longrightarrow> P st'"
proof (induction k arbitrary: off st)
  case 0
  then show ?case by simp
next
  case (Suc k)
  from Suc.prems(2) obtain v where
    "collect_failure_pops fl cfg ext iw w k (Suc off)
       (AppendTokenToOutput fl cfg ext iw w v st) = Some st'"
    by (auto split: option.splits)
  with Suc.IH app [OF Suc.prems(1)] show ?case by blast
qed

lemma TryFollow_invariant:
  assumes app: "\<And>v s. P s \<Longrightarrow> P (AppendTokenToOutput fl cfg ext iw w v s)"
    and node: "\<And>n s. P s \<Longrightarrow> P (s\<lparr>cur_node := n\<rparr>)"
    and "P st"
    and "TryFollowFailureLinkAndCollectTokens fl cfg ext iw w st = Some (b, st')"
  shows "P st'"
  using assms(3,4) app node collect_failure_pops_invariant [of P fl cfg ext iw w, OF app]
  unfolding TryFollowFailureLinkAndCollectTokens_def
  by (auto split: option.splits if_splits)

lemma remaining_loop_invariant:
  assumes app: "\<And>v s. P s \<Longrightarrow> P (AppendTokenToOutput fl cfg ext iw w v s)"
    and node: "\<And>n s. P s \<Longrightarrow> P (s\<lparr>cur_node := n\<rparr>)"
  shows "P st \<Longrightarrow> remaining_loop k fl cfg ext iw w st = Some (b, st') \<Longrightarrow> P st'"
proof (induction k arbitrary: st)
  case 0
  then show ?case by (auto split: if_splits)
next
  case (Suc k)
  show ?case
  proof (cases "cur_node st \<noteq> trie_suffix_root cfg \<and>
                cur_node st \<noteq> trie_punct_failure_link_node cfg")
    case False
    with Suc.prems show ?thesis by auto
  next
    case True
    with Suc.prems(2) obtain c st1 where
      f: "TryFollowFailureLinkAndCollectTokens fl cfg ext iw w st = Some (c, st1)"
      by (auto split: option.splits)
    have p1: "P st1" by (rule TryFollow_invariant [OF app node Suc.prems(1) f])
    show ?thesis
    proof (cases c)
      case True
      with \<open>cur_node st \<noteq> trie_suffix_root cfg \<and> _\<close> f Suc.prems(2)
      have "remaining_loop k fl cfg ext iw w st1 = Some (b, st')" by simp
      from Suc.IH [OF p1 this] show ?thesis .
    next
      case False
      with \<open>cur_node st \<noteq> trie_suffix_root cfg \<and> _\<close> f Suc.prems(2) p1
      show ?thesis by auto
    qed
  qed
qed

lemma single_word_step_invariant:
  assumes app: "\<And>v s. P s \<Longrightarrow> P (AppendTokenToOutput fl cfg ext iw w v s)"
    and node: "\<And>n s. P s \<Longrightarrow> P (s\<lparr>cur_node := n\<rparr>)"
  shows "P st \<Longrightarrow> single_word_step k fl cfg ext iw w ch st = Some (b, st') \<Longrightarrow> P st'"
proof (induction k arbitrary: st)
  case 0
  then show ?case using node by (auto split: option.splits)
next
  case (Suc k)
  show ?case
  proof (cases "TryTraverseOneStep ext (cur_node st) ch")
    case (Some n')
    with Suc.prems node show ?thesis by auto
  next
    case None
    with Suc.prems(2) obtain c st1 where
      f: "TryFollowFailureLinkAndCollectTokens fl cfg ext iw w st = Some (c, st1)"
      by (auto split: option.splits)
    have p1: "P st1" by (rule TryFollow_invariant [OF app node Suc.prems(1) f])
    show ?thesis
    proof (cases c)
      case True
      with None f Suc.prems(2)
      have "single_word_step k fl cfg ext iw w ch st1 = Some (b, st')" by simp
      from Suc.IH [OF p1 this] show ?thesis .
    next
      case False
      with None f Suc.prems(2) p1 show ?thesis by auto
    qed
  qed
qed

lemma single_word_loop_invariant:
  assumes app: "\<And>v s. P s \<Longrightarrow> P (AppendTokenToOutput fl cfg ext iw w v s)"
    and node: "\<And>n s. P s \<Longrightarrow> P (s\<lparr>cur_node := n\<rparr>)"
  shows "P st \<Longrightarrow> single_word_loop k fl cfg ext iw w cs st = Some (b, st') \<Longrightarrow> P st'"
proof (induction cs arbitrary: st)
  case Nil
  then show ?case by simp
next
  case (Cons ch cs)
  from Cons.prems(2) obtain c st1 where
    f: "single_word_step k fl cfg ext iw w ch st = Some (c, st1)"
    by (auto split: option.splits)
  have p1: "P st1" by (rule single_word_step_invariant [OF app node Cons.prems(1) f])
  show ?case
  proof (cases c)
    case True
    with f Cons.prems(2)
    have "single_word_loop k fl cfg ext iw w cs st1 = Some (b, st')" by simp
    from Cons.IH [OF p1 this] show ?thesis .
  next
    case False
    with f Cons.prems(2) p1 show ?thesis by auto
  qed
qed

lemma text_char_step_invariant:
  assumes app: "\<And>v s. P s \<Longrightarrow> P (AppendTokenToOutput fl cfg ext iw w v s)"
    and node: "\<And>n s. P s \<Longrightarrow> P (s\<lparr>cur_node := n\<rparr>)"
  shows "P st \<Longrightarrow> text_char_step k fl cfg ext iw w bs st = Some (b, st') \<Longrightarrow> P st'"
proof (induction k arbitrary: st)
  case 0
  then show ?case using node by (auto split: option.splits)
next
  case (Suc k)
  show ?case
  proof (cases "TryTraverseSeveralSteps ext (cur_node st) bs")
    case (Some n')
    with Suc.prems node show ?thesis by auto
  next
    case None
    with Suc.prems(2) obtain c st1 where
      f: "TryFollowFailureLinkAndCollectTokens fl cfg ext iw w st = Some (c, st1)"
      by (auto split: option.splits)
    have p1: "P st1" by (rule TryFollow_invariant [OF app node Suc.prems(1) f])
    show ?thesis
    proof (cases c)
      case True
      with None f Suc.prems(2)
      have "text_char_step k fl cfg ext iw w bs st1 = Some (b, st')" by simp
      from Suc.IH [OF p1 this] show ?thesis .
    next
      case False
      with None f Suc.prems(2) p1 show ?thesis by auto
    qed
  qed
qed

lemma Append_keeps:
  "keeps fl m ou (out st) \<Longrightarrow>
   keeps fl m ou (out (AppendTokenToOutput fl cfg ext iw w v st))"
  by (auto simp: keeps_def AppendTokenToOutput_def Let_def)

lemma Append_aligned:
  "aligned fl (out st) \<Longrightarrow> aligned fl (out (AppendTokenToOutput fl cfg ext iw w v st))"
  by (auto simp: aligned_def AppendTokenToOutput_def Let_def GetCurrentOutputSize_def)

lemma keeps_refl:
  "aligned fl ou \<Longrightarrow> keeps fl (GetCurrentOutputSize fl ou) ou ou"
  by (auto simp: aligned_def keeps_def GetCurrentOutputSize_def)

lemma single_word_loop_keeps:
  assumes "keeps fl m ou (out st)"
    and "single_word_loop k fl cfg ext iw w cs st = Some (b, st')"
  shows "keeps fl m ou (out st')"
  using single_word_loop_invariant
          [of "\<lambda>s. keeps fl m ou (out s)" fl cfg ext iw w st k cs b st']
        assms
  by (simp add: Append_keeps)

lemma remaining_loop_keeps:
  assumes "keeps fl m ou (out st)"
    and "remaining_loop k fl cfg ext iw w st = Some (b, st')"
  shows "keeps fl m ou (out st')"
  using remaining_loop_invariant
          [of "\<lambda>s. keeps fl m ou (out s)" fl cfg ext iw w st k b st']
        assms
  by (simp add: Append_keeps)

lemma text_char_step_keeps:
  assumes "keeps fl m ou (out st)"
    and "text_char_step k fl cfg ext iw w bs st = Some (b, st')"
  shows "keeps fl m ou (out st')"
  using text_char_step_invariant
          [of "\<lambda>s. keeps fl m ou (out s)" fl cfg ext iw w st k bs b st']
        assms
  by (simp add: Append_keeps)

lemma TryHandle_False:
  "TryHandleTheInputWordBeingSuffixIndicatorItself fl cfg ext iw w m st = (False, st') \<Longrightarrow>
   st' = st"
  by (auto simp: TryHandleTheInputWordBeingSuffixIndicatorItself_def split: if_splits)

text \<open>
  The unknown token at the call sites that roll back to the size before the word.
  Let the vectors written to have the same length at the start of a word
  (\<open>aligned fl ou\<close>). Whatever tokens were emitted for the word since
  (\<open>keeps ... ou cur\<close>), \<open>ResetOutputAppendUnknownToken\<close> with the size before the
  word gives the outputs as they were before the word followed by exactly one token:
  id \<open>unk_token_id\<close>, piece \<open>unk_token\<close>, offsets \<open>[w, w + n)\<close>. This is what the
  single-word tokenizer returns for a word longer than \<open>max_bytes_per_token\<close>, and
  for a word whose matching loop meets a node with no failure link; and what
  \<open>HandleTheRemainingStringOnTriePath\<close> leaves when the rest of the trie path cannot
  be tokenized and the marker it is given is the size before the word.
\<close>

theorem unknown_token_policy:
  "aligned fl ou \<longrightarrow>
   (keeps fl (GetCurrentOutputSize fl ou) ou cur \<longrightarrow>
      ResetOutputAppendUnknownToken fl cfg w n (GetCurrentOutputSize fl ou) cur =
        (GetCurrentOutputSize fl ou + 1, append_unknown fl cfg w n ou)) \<and>
   (max_bytes_per_token cfg < length iw \<longrightarrow>
      TokenizeSingleWordImpl fuel fl cfg ext iw w ou =
        Some (append_unknown fl cfg w (int (length iw)) ou)) \<and>
   (iw \<noteq> [] \<and> length iw \<le> max_bytes_per_token cfg \<and>
    single_word_loop fuel fl cfg ext iw w iw
      \<lparr>cur_offset_in_input_word = 0, cur_node = kRootNodeId ext, out = ou\<rparr> =
      Some (False, st) \<longrightarrow>
      TokenizeSingleWordImpl fuel fl cfg ext iw w ou =
        Some (append_unknown fl cfg w (int (length iw)) ou)) \<and>
   (keeps fl (GetCurrentOutputSize fl ou) ou (out st1) \<and>
    cur_node st1 \<noteq> kRootNodeId ext \<and>
    fst (TryHandleTheInputWordBeingSuffixIndicatorItself fl cfg ext iw w
           (GetCurrentOutputSize fl ou) st1) = False \<and>
    remaining_loop fuel fl cfg ext iw w st1 = Some (False, st2) \<longrightarrow>
      HandleTheRemainingStringOnTriePath fuel fl cfg ext iw w
          (GetCurrentOutputSize fl ou) st1 =
        Some (GetCurrentOutputSize fl ou + 1,
              st2\<lparr>out := append_unknown fl cfg w (int (length iw)) ou\<rparr>))"
proof (intro impI conjI)
  assume al: "aligned fl ou"
  note r = Reset_aligned [OF al]
  { assume "keeps fl (GetCurrentOutputSize fl ou) ou cur"
    from r [OF this] show "ResetOutputAppendUnknownToken fl cfg w n (GetCurrentOutputSize fl ou) cur =
        (GetCurrentOutputSize fl ou + 1, append_unknown fl cfg w n ou)" by simp }
  { assume "max_bytes_per_token cfg < length iw"
    then show "TokenizeSingleWordImpl fuel fl cfg ext iw w ou =
        Some (append_unknown fl cfg w (int (length iw)) ou)"
      using r [OF keeps_refl [OF al]]
      by (auto simp: TokenizeSingleWordImpl_def Let_def) }
  { assume a: "iw \<noteq> [] \<and> length iw \<le> max_bytes_per_token cfg \<and>
      single_word_loop fuel fl cfg ext iw w iw
        \<lparr>cur_offset_in_input_word = 0, cur_node = kRootNodeId ext, out = ou\<rparr> =
        Some (False, st)"
    then have "keeps fl (GetCurrentOutputSize fl ou) ou (out st)"
      using single_word_loop_keeps
              [of fl "GetCurrentOutputSize fl ou" ou
                  "\<lparr>cur_offset_in_input_word = 0, cur_node = kRootNodeId ext, out = ou\<rparr>"
                  fuel cfg ext iw w iw False st]
            keeps_refl [OF al]
      by simp
    from r [OF this] a show "TokenizeSingleWordImpl fuel fl cfg ext iw w ou =
        Some (append_unknown fl cfg w (int (length iw)) ou)"
      by (simp add: TokenizeSingleWordImpl_def Let_def) }
  { assume a: "keeps fl (GetCurrentOutputSize fl ou) ou (out st1) \<and>
      cur_node st1 \<noteq> kRootNodeId ext \<and>
      fst (TryHandleTheInputWordBeingSuffixIndicatorItself fl cfg ext iw w
             (GetCurrentOutputSize fl ou) st1) = False \<and>
      remaining_loop fuel fl cfg ext iw w st1 = Some (False, st2)"
    then have h: "TryHandleTheInputWordBeingSuffixIndicatorItself fl cfg ext iw w
             (GetCurrentOutputSize fl ou) st1 = (False, st1)"
      using TryHandle_False [of fl cfg ext iw w "GetCurrentOutputSize fl ou" st1]
      by (metis prod.collapse)
    from a have "keeps fl (GetCurrentOutputSize fl ou) ou (out st2)"
      using remaining_loop_keeps by blast
    from r [OF this] a h
    show "HandleTheRemainingStringOnTriePath fuel fl cfg ext iw w
          (GetCurrentOutputSize fl ou) st1 =
        Some (GetCurrentOutputSize fl ou + 1,
              st2\<lparr>out := append_unknown fl cfg w (int (length iw)) ou\<rparr>)"
      by (simp add: HandleTheRemainingStringOnTriePath_def) }
qed


text \<open>
  On the example, with outputs that already hold one token: the word \<open>abcz\<close> under a
  limit of two bytes, and the word \<open>abq\<close>, whose tokens \<open>a\<close> and \<open>##b\<close> are emitted
  and then rolled back when \<open>q\<close> cannot be matched.
\<close>

theorem unknown_token_policy_witness:
  "TokenizeSingleWordImpl 3 all_outputs (example_config\<lparr>max_bytes_per_token := 2\<rparr>)
     example_externals ''abcz'' 7
     \<lparr>output_pieces = [''x''], output_ids = [9], output_start_offsets = [0],
      output_end_offsets = [1]\<rparr> =
   Some \<lparr>output_pieces = [''x'', ''[UNK]''], output_ids = [9, 5],
         output_start_offsets = [0, 7], output_end_offsets = [1, 11]\<rparr> \<and>
   single_word_loop 3 all_outputs example_config example_externals ''abq'' 7 ''abq''
     \<lparr>cur_offset_in_input_word = 0, cur_node = 0,
      out = \<lparr>output_pieces = [''x''], output_ids = [9], output_start_offsets = [0],
             output_end_offsets = [1]\<rparr>\<rparr> =
   Some (False,
     \<lparr>cur_offset_in_input_word = 2, cur_node = 2,
      out = \<lparr>output_pieces = [''x'', ''a'', ''##b''], output_ids = [9, 0, 2],
             output_start_offsets = [0, 7, 8], output_end_offsets = [1, 8, 9]\<rparr>\<rparr>) \<and>
   TokenizeSingleWordImpl 3 all_outputs example_config example_externals ''abq'' 7
     \<lparr>output_pieces = [''x''], output_ids = [9], output_start_offsets = [0],
      output_end_offsets = [1]\<rparr> =
   Some \<lparr>output_pieces = [''x'', ''[UNK]''], output_ids = [9, 5],
         output_start_offsets = [0, 7], output_end_offsets = [1, 10]\<rparr>"
proof -
  let ?ou = "\<lparr>output_pieces = [''x''], output_ids = [9::int],
              output_start_offsets = [0::int], output_end_offsets = [1::int]\<rparr>"
  let ?st = "\<lparr>cur_offset_in_input_word = 2, cur_node = 2,
      out = \<lparr>output_pieces = [''x'', ''a'', ''##b''], output_ids = [9, 0, 2],
             output_start_offsets = [0, 7, 8], output_end_offsets = [1, 8, 9]\<rparr>\<rparr>"
  have al: "aligned all_outputs ?ou"
    by (simp add: aligned_def all_outputs_def GetCurrentOutputSize_def)
  have lp: "single_word_loop 3 all_outputs example_config example_externals ''abq'' 7 ''abq''
     \<lparr>cur_offset_in_input_word = 0, cur_node = 0, out = ?ou\<rparr> = Some (False, ?st)"
    by (simp add: example_defs word_defs)
  have root: "kRootNodeId example_externals = 0" by (simp add: example_defs)
  have mx: "max_bytes_per_token (example_config\<lparr>max_bytes_per_token := 2\<rparr>) < length ''abcz''"
    "length ''abq'' \<le> max_bytes_per_token example_config"
    by (simp_all add: example_defs)
  have au: "append_unknown all_outputs cfg w n ?ou =
      \<lparr>output_pieces = [''x'', unk_token cfg], output_ids = [9, unk_token_id cfg],
       output_start_offsets = [0, w], output_end_offsets = [1, w + n]\<rparr>" for cfg w n
    by (simp add: append_unknown_def all_outputs_def)
  have u: "unk_token example_config = ''[UNK]''" "unk_token_id example_config = 5"
    by (simp_all add: example_defs)
  show ?thesis
    using unknown_token_policy
            [where fl = all_outputs and ou = "?ou"
               and cfg = "example_config\<lparr>max_bytes_per_token := 2\<rparr>"
               and iw = "''abcz''" and fuel = 3 and ext = example_externals and w = 7]
          unknown_token_policy
            [where fl = all_outputs and ou = "?ou" and cfg = example_config
               and iw = "''abq''" and fuel = 3 and ext = example_externals and w = 7
               and st = "?st"]
          al lp root mx
    by (simp add: au u)
qed

section \<open>The word that is the suffix indicator\<close>

text \<open>
  Claim C5. Let the trie traversal of a word end at \<open>trie_suffix_root\<close> with no token
  emitted for the word (the output size is still \<open>m\<close>, the size before the word).
  If \<open>precomputed_result_for_suffix_indicator\<close> has length 1 and its entry has the id
  \<open>unk_token_id\<close>, the outputs get exactly one unknown token that spans the word;
  otherwise every encoded token of the precomputed result is emitted in order. In
  both cases \<open>HandleTheRemainingStringOnTriePath\<close> returns with that state (when
  \<open>trie_suffix_root\<close> is not the root).
\<close>

theorem suffix_indicator_word:
  "cur_node st = trie_suffix_root cfg \<and> GetCurrentOutputSize fl (out st) = m \<longrightarrow>
   (length (precomputed_result_for_suffix_indicator cfg) = 1 \<and>
    GetTokenId ext (precomputed_result_for_suffix_indicator cfg ! 0) = unk_token_id cfg \<and>
    aligned fl (out st) \<longrightarrow>
      TryHandleTheInputWordBeingSuffixIndicatorItself fl cfg ext iw w m st =
        (True, st\<lparr>out := append_unknown fl cfg w (int (length iw)) (out st)\<rparr>)) \<and>
   (\<not> (length (precomputed_result_for_suffix_indicator cfg) = 1 \<and>
        GetTokenId ext (precomputed_result_for_suffix_indicator cfg ! 0) =
          unk_token_id cfg) \<longrightarrow>
      TryHandleTheInputWordBeingSuffixIndicatorItself fl cfg ext iw w m st =
        (True, foldl (\<lambda>s v. AppendTokenToOutput fl cfg ext iw w v s) st
                 (precomputed_result_for_suffix_indicator cfg))) \<and>
   (cur_node st \<noteq> kRootNodeId ext \<longrightarrow>
      HandleTheRemainingStringOnTriePath fuel fl cfg ext iw w m st =
        Some (GetCurrentOutputSize fl
                (out (snd (TryHandleTheInputWordBeingSuffixIndicatorItself fl cfg ext iw w
                             m st))),
              snd (TryHandleTheInputWordBeingSuffixIndicatorItself fl cfg ext iw w m st)))"
proof (intro impI conjI)
  assume a: "cur_node st = trie_suffix_root cfg \<and> GetCurrentOutputSize fl (out st) = m"
  { assume b: "length (precomputed_result_for_suffix_indicator cfg) = 1 \<and>
      GetTokenId ext (precomputed_result_for_suffix_indicator cfg ! 0) = unk_token_id cfg \<and>
      aligned fl (out st)"
    then have "ResetOutputAppendUnknownToken fl cfg w (int (length iw))
                 (GetCurrentOutputSize fl (out st)) (out st) =
               (Suc (GetCurrentOutputSize fl (out st)),
                append_unknown fl cfg w (int (length iw)) (out st))"
      using Reset_aligned [of fl "out st" "out st"] keeps_refl [of fl "out st"] by simp
    with a b show "TryHandleTheInputWordBeingSuffixIndicatorItself fl cfg ext iw w m st =
        (True, st\<lparr>out := append_unknown fl cfg w (int (length iw)) (out st)\<rparr>)"
      by (auto simp: TryHandleTheInputWordBeingSuffixIndicatorItself_def) }
  { assume "\<not> (length (precomputed_result_for_suffix_indicator cfg) = 1 \<and>
        GetTokenId ext (precomputed_result_for_suffix_indicator cfg ! 0) =
          unk_token_id cfg)"
    with a show "TryHandleTheInputWordBeingSuffixIndicatorItself fl cfg ext iw w m st =
        (True, foldl (\<lambda>s v. AppendTokenToOutput fl cfg ext iw w v s) st
                 (precomputed_result_for_suffix_indicator cfg))"
      by (auto simp: TryHandleTheInputWordBeingSuffixIndicatorItself_def) }
  { assume "cur_node st \<noteq> kRootNodeId ext"
    moreover from a have "fst (TryHandleTheInputWordBeingSuffixIndicatorItself fl cfg ext iw w m st)"
      by (auto simp: TryHandleTheInputWordBeingSuffixIndicatorItself_def)
    ultimately show "HandleTheRemainingStringOnTriePath fuel fl cfg ext iw w m st =
        Some (GetCurrentOutputSize fl
                (out (snd (TryHandleTheInputWordBeingSuffixIndicatorItself fl cfg ext iw w
                             m st))),
              snd (TryHandleTheInputWordBeingSuffixIndicatorItself fl cfg ext iw w m st))"
      by (cases "TryHandleTheInputWordBeingSuffixIndicatorItself fl cfg ext iw w m st")
         (auto simp: HandleTheRemainingStringOnTriePath_def) }
qed


text \<open>
  On the example the word \<open>##\<close> ends at node 2 with nothing emitted and the
  precomputed result is the unknown token. With a vocabulary that also had \<open>#\<close>
  (id 6) and \<open>###\<close> (id 7, the suffix token \<open>#\<close>) the precomputed result would be
  these two tokens, and they are emitted in order.
\<close>

theorem suffix_indicator_word_witness:
  "TryHandleTheInputWordBeingSuffixIndicatorItself all_outputs example_config
     example_externals ''##'' 4 0
     \<lparr>cur_offset_in_input_word = 0, cur_node = 2, out = no_outputs\<rparr> =
     (True, \<lparr>cur_offset_in_input_word = 0, cur_node = 2,
             out = \<lparr>output_pieces = [''[UNK]''], output_ids = [5],
                    output_start_offsets = [4], output_end_offsets = [6]\<rparr>\<rparr>) \<and>
   TryHandleTheInputWordBeingSuffixIndicatorItself all_outputs
     (example_config\<lparr>precomputed_result_for_suffix_indicator := [6010, 7011]\<rparr>)
     example_externals ''##'' 4 0
     \<lparr>cur_offset_in_input_word = 0, cur_node = 2, out = no_outputs\<rparr> =
     (True, \<lparr>cur_offset_in_input_word = 2, cur_node = 2,
             out = \<lparr>output_pieces = [''#'', ''###''], output_ids = [6, 7],
                    output_start_offsets = [4, 5], output_end_offsets = [5, 6]\<rparr>\<rparr>) \<and>
   HandleTheRemainingStringOnTriePath 0 all_outputs example_config
     example_externals ''##'' 4 0
     \<lparr>cur_offset_in_input_word = 0, cur_node = 2, out = no_outputs\<rparr> =
     Some (1, \<lparr>cur_offset_in_input_word = 0, cur_node = 2,
               out = \<lparr>output_pieces = [''[UNK]''], output_ids = [5],
                      output_start_offsets = [4], output_end_offsets = [6]\<rparr>\<rparr>)"
proof -
  let ?st = "\<lparr>cur_offset_in_input_word = 0, cur_node = 2, out = no_outputs\<rparr>"
  let ?cfg2 = "example_config\<lparr>precomputed_result_for_suffix_indicator := [6010, 7011]\<rparr>"
  have h: "cur_node ?st = trie_suffix_root example_config"
      "cur_node ?st = trie_suffix_root ?cfg2"
      "GetCurrentOutputSize all_outputs (out ?st) = 0"
      "cur_node ?st \<noteq> kRootNodeId example_externals"
    by (simp_all add: example_defs GetCurrentOutputSize_def)
  have al: "aligned all_outputs (out ?st)"
    by (simp add: aligned_def example_defs GetCurrentOutputSize_def)
  have p1: "length (precomputed_result_for_suffix_indicator example_config) = 1"
      "GetTokenId example_externals (precomputed_result_for_suffix_indicator example_config ! 0)
         = unk_token_id example_config"
    by (simp_all add: example_defs)
  have p2: "length (precomputed_result_for_suffix_indicator ?cfg2) \<noteq> 1"
    by (simp add: example_defs)
  have e1: "append_unknown all_outputs example_config 4 2 no_outputs =
      \<lparr>output_pieces = [''[UNK]''], output_ids = [5],
       output_start_offsets = [4], output_end_offsets = [6]\<rparr>"
    by (simp add: append_unknown_def example_defs)
  have g: "GetCurrentOutputSize all_outputs
             \<lparr>output_pieces = [''[UNK]''], output_ids = [5],
              output_start_offsets = [4], output_end_offsets = [6]\<rparr> = Suc 0"
    by (simp add: GetCurrentOutputSize_def all_outputs_def)
  have e2: "AppendTokenToOutput all_outputs ?cfg2 example_externals ''##'' 4 7011
              (AppendTokenToOutput all_outputs ?cfg2 example_externals ''##'' 4 6010 ?st) =
      \<lparr>cur_offset_in_input_word = 2, cur_node = 2,
       out = \<lparr>output_pieces = [''#'', ''###''], output_ids = [6, 7],
              output_start_offsets = [4, 5], output_end_offsets = [5, 6]\<rparr>\<rparr>"
    by (simp add: example_defs AppendTokenToOutput_def Let_def)
  show ?thesis
    using suffix_indicator_word
            [where st = "?st" and cfg = example_config and fl = all_outputs and m = 0
               and ext = example_externals and iw = "''##''" and w = 4 and fuel = 0]
          suffix_indicator_word
            [where st = "?st" and cfg = "?cfg2" and fl = all_outputs and m = 0
               and ext = example_externals and iw = "''##''" and w = 4 and fuel = 0]
          h al p1 p2
    by (simp add: e1 e2 g)
qed

section \<open>The detokenizer groups ids into words\<close>

lemma StrJoin_empty_separator: "StrJoin xs [] = concat xs"
  by (induction xs "[] :: string" rule: StrJoin.induct) simp_all

lemma StrJoin_space: "StrJoin ws '' '' = spec_join_by_space ws"
proof (induction ws "'' ''" rule: StrJoin.induct)
  case 1
  then show ?case by (simp add: spec_join_by_space_def)
next
  case (2 x)
  then show ?case by (simp add: spec_join_by_space_def)
next
  case (3 x y ys)
  then show ?case by (simp add: spec_join_by_space_def)
qed

lemma detokenize_loop_spec:
  "ids_in_vocab cfg ids \<Longrightarrow>
   detokenize_loop cfg ids subwords output_tokens =
     Some (foldl (spec_detokenize_step cfg) (subwords, output_tokens) ids)"
proof (induction ids arbitrary: subwords output_tokens)
  case Nil
  then show ?case by simp
next
  case (Cons i ids)
  from Cons.prems have r: "0 \<le> i" "nat i < length (vocab_array cfg)"
      "nat i < length (vocab_is_suffix_array cfg)" and rest: "ids_in_vocab cfg ids"
    by (simp_all add: ids_in_vocab_def)
  show ?case
    using r Cons.IH [OF rest]
    by (simp add: Get_def Let_def spec_detokenize_step_def StrJoin_empty_separator)
qed

text \<open>
  Claim C6. On a model with \<open>support_detokenization\<close> and ids inside the vocabulary,
  \<open>DetokenizeToTokens\<close> returns the words the rule of the specification builds:
  starting from no pending subwords and no words, each id is handled by
  \<open>spec_detokenize_step\<close> (a token that is not a suffix flushes the pending
  subwords; a suffix token on an empty pending list pushes the suffix indicator
  first; the vocabulary entry is pushed), and the pending list is flushed at the end.
  \<open>Detokenize\<close> returns these words joined by a single space.
\<close>

theorem detokenize_groups_words:
  "support_detokenization cfg \<and> ids_in_vocab cfg ids \<longrightarrow>
   DetokenizeToTokens cfg ids = Some (Inr (spec_detokenize_to_tokens cfg ids)) \<and>
   Detokenize cfg ids =
     Some (Inr (spec_join_by_space (spec_detokenize_to_tokens cfg ids)))"
  by (simp add: DetokenizeToTokens_def Detokenize_def detokenize_loop_spec
        spec_detokenize_to_tokens_def spec_flush_def StrJoin_empty_separator StrJoin_space
        split: prod.splits)

text \<open>
  On the example the ids of \<open>a, ##bc, ##z, ##b, a, abcd, ##b\<close> give the words
  \<open>abcz\<close> and \<open>b\<close> appended, then \<open>a\<close>, then \<open>abcdb\<close>; a leading suffix token keeps its
  \<open>##\<close>.
\<close>

theorem detokenize_groups_words_witness:
  "DetokenizeToTokens example_config [0, 3, 4, 2, 0, 1, 2] =
     Some (Inr [''abczb'', ''a'', ''abcdb'']) \<and>
   Detokenize example_config [0, 3, 4, 2, 0, 1, 2] = Some (Inr ''abczb a abcdb'') \<and>
   DetokenizeToTokens example_config [3, 4] = Some (Inr [''##bcz''])"
proof -
  have s: "support_detokenization example_config" by (simp add: example_defs)
  have i: "ids_in_vocab example_config [0, 3, 4, 2, 0, 1, 2]"
      "ids_in_vocab example_config [3, 4]"
    by (simp_all add: ids_in_vocab_def example_defs)
  have e: "spec_detokenize_to_tokens example_config [0, 3, 4, 2, 0, 1, 2] =
             [''abczb'', ''a'', ''abcdb'']"
      "spec_detokenize_to_tokens example_config [3, 4] = [''##bcz'']"
    by (simp_all add: spec_detokenize_to_tokens_def spec_detokenize_step_def spec_flush_def
          Let_def example_defs)
  show ?thesis
    using detokenize_groups_words [of example_config "[0, 3, 4, 2, 0, 1, 2]"]
          detokenize_groups_words [of example_config "[3, 4]"] s i
    by (simp add: e spec_join_by_space_def)
qed

section \<open>The word boundary rule of the end-to-end tokenizer\<close>

lemma tokenize_word_word_start_state:
  "tokenize_word fuel fl cfg ext input_text s =
     (case trie_match_loop fuel fuel fl cfg ext input_text (cur_pos s)
             (word_start_state ext s) of
        None \<Rightarrow> None
      | Some s1 \<Rightarrow> outside_trie_match_loop fuel fl cfg ext input_text (cur_pos s) s1)"
  by (simp add: tokenize_word_def word_start_state_def)




lemma text_char_step_numeral:
  "text_char_step (numeral k) fl cfg ext iw w bs st =
     (case TryTraverseSeveralSteps ext (cur_node st) bs of
        Some n' \<Rightarrow> Some (True, st\<lparr>cur_node := n'\<rparr>)
      | None \<Rightarrow>
          (case TryFollowFailureLinkAndCollectTokens fl cfg ext iw w st of
             None \<Rightarrow> None
           | Some (False, st') \<Rightarrow> Some (False, st')
           | Some (True, st') \<Rightarrow> text_char_step (pred_numeral k) fl cfg ext iw w bs st'))"
  by (simp add: numeral_eq_Suc)

lemma trie_match_loop_numeral:
  "trie_match_loop (numeral k) fuel fl cfg ext input_text word_start s =
     (if cur_pos s < length input_text
      then
        (let s1 = s\<lparr>prev_unicode_char := cur_unicode_char s,
                    next_pos := snd (U8_NEXT ext input_text (cur_pos s)),
                    cur_unicode_char := fst (U8_NEXT ext input_text (cur_pos s))\<rparr>
         in if word_byte_length_so_far s1 + int (next_pos s1) - int (cur_pos s1)
                 > int (max_bytes_per_token cfg)
            then Some s1
            else
              (case text_char_step fuel fl cfg ext (drop word_start input_text)
                      (int word_start)
                      (substr input_text (cur_pos s1)
                         (int (next_pos s1) - int (cur_pos s1)))
                      (word s1) of
                 None \<Rightarrow> None
               | Some (False, st') \<Rightarrow> Some (s1\<lparr>word := st'\<rparr>)
               | Some (True, st') \<Rightarrow>
                   trie_match_loop (pred_numeral k) fuel fl cfg ext input_text word_start
                     (s1\<lparr>word := st',
                         word_byte_length_so_far :=
                           word_byte_length_so_far s1 + int (next_pos s1) - int (cur_pos s1),
                         cur_pos := next_pos s1\<rparr>)))
      else Some s)"
  by (simp add: numeral_eq_Suc)

lemma Skip_numeral:
  "SkipTheRemainingOfWordAndTrailingWhiteSpaces (numeral k) ext input (end_of_word, pos) =
     (if pos < length input
      then (if u_isUWhiteSpace ext (fst (U8_NEXT ext input pos))
            then Some (end_of_word, snd (U8_NEXT ext input pos))
            else if IsPunctuationOrChineseChar ext (fst (U8_NEXT ext input pos))
            then Some (end_of_word, pos)
            else SkipTheRemainingOfWordAndTrailingWhiteSpaces (pred_numeral k) ext input
                   (snd (U8_NEXT ext input pos), snd (U8_NEXT ext input pos)))
      else Some (end_of_word, pos))"
  by (simp add: numeral_eq_Suc)

lemma text_loop_numeral:
  "text_loop (numeral k) fuel fl cfg ext input_text s =
     (if cur_pos s < length input_text
      then (case tokenize_word fuel fl cfg ext input_text s of
              None \<Rightarrow> None
            | Some (False, s') \<Rightarrow> Some s'
            | Some (True, s') \<Rightarrow> text_loop (pred_numeral k) fuel fl cfg ext input_text s')
      else Some s)"
  by (simp add: numeral_eq_Suc)

lemmas text_defs =
  substr_def is_word_boundary_def outside_trie_match_loop_def tokenize_word_def
  initial_text_state_def word_start_state_def TokenizeTextImpl_def Tokenize_def
  text_char_step_numeral trie_match_loop_numeral Skip_numeral text_loop_numeral

subsection \<open>The code points the loops have read\<close>

lemma code_point_starts_trans:
  "code_point_starts ext t b c \<Longrightarrow> code_point_starts ext t a b \<Longrightarrow>
   code_point_starts ext t a c"
  by (induction rule: code_point_starts.induct) (auto intro: code_point_starts.intros)

lemma code_point_starts_first:
  assumes "a < length t" and "code_point_starts ext t (snd (U8_NEXT ext t a)) q"
  shows "code_point_starts ext t a q"
proof -
  from assms(1) have "code_point_starts ext t a (snd (U8_NEXT ext t a))"
    by (rule code_point_starts.after [OF code_point_starts.here])
  from code_point_starts_trans [OF assms(2) this] show ?thesis .
qed












lemmas model_defs =
  punct_config_def punct_externals_def plain_config_def plain_externals_def



section \<open>The rollback marker of the end-to-end tokenizer\<close>

lemma keeps_trans:
  "keeps fl m ou cur \<Longrightarrow> keeps fl m' cur cur' \<Longrightarrow> m \<le> m' \<Longrightarrow> keeps fl m ou cur'"
  unfolding keeps_def
  by (smt (verit, best) min.absorb2 order_trans take_take min.commute)

lemma keeps_size:
  "keeps fl m ou cur \<Longrightarrow> kGetPieces fl \<or> kGetIds fl \<Longrightarrow> aligned fl cur \<Longrightarrow>
   m \<le> GetCurrentOutputSize fl cur"
  by (auto simp: keeps_def GetCurrentOutputSize_def aligned_def split: if_splits)

lemma keeps_same:
  "aligned fl ou \<Longrightarrow> m \<le> GetCurrentOutputSize fl ou \<Longrightarrow> keeps fl m ou ou"
  by (auto simp: aligned_def keeps_def GetCurrentOutputSize_def)

lemma take_eq_le:
  assumes "m \<le> length xs" and "take m xs = take m ys"
  shows "m \<le> length ys"
proof -
  from assms(2) have "length (take m xs) = length (take m ys)" by simp
  with assms(1) show ?thesis by simp
qed

lemma keeps_lengths:
  assumes "keeps fl m ou cur"
  shows "kGetPieces fl \<longrightarrow> m \<le> length (output_pieces cur) \<and> m \<le> length (output_pieces ou)"
    and "kGetIds fl \<longrightarrow> m \<le> length (output_ids cur) \<and> m \<le> length (output_ids ou)"
    and "kGetOffsets fl \<longrightarrow>
           m \<le> length (output_start_offsets cur) \<and> m \<le> length (output_start_offsets ou) \<and>
           m \<le> length (output_end_offsets cur) \<and> m \<le> length (output_end_offsets ou)"
  using assms take_eq_le [of m "output_pieces cur" "output_pieces ou"]
    take_eq_le [of m "output_ids cur" "output_ids ou"]
    take_eq_le [of m "output_start_offsets cur" "output_start_offsets ou"]
    take_eq_le [of m "output_end_offsets cur" "output_end_offsets ou"]
  by (simp_all add: keeps_def split: if_splits)

lemma Reset_marker:
  assumes k: "keeps fl m ou cur" and f: "kGetPieces fl \<or> kGetIds fl"
  shows "keeps fl m ou (snd (ResetOutputAppendUnknownToken fl cfg w n m cur)) \<and>
         aligned fl (snd (ResetOutputAppendUnknownToken fl cfg w n m cur)) \<and>
         fst (ResetOutputAppendUnknownToken fl cfg w n m cur) = m + 1 \<and>
         GetCurrentOutputSize fl (snd (ResetOutputAppendUnknownToken fl cfg w n m cur)) = m + 1"
  using k f keeps_lengths [OF k]
  by (auto simp: ResetOutputAppendUnknownToken_def keeps_def aligned_def
        GetCurrentOutputSize_def Let_def set_back_resize_keeps)


lemma TryFollow_False:
  "TryFollowFailureLinkAndCollectTokens fl cfg ext iw w st = Some (False, st') \<Longrightarrow> st' = st"
  by (auto simp: TryFollowFailureLinkAndCollectTokens_def split: option.splits if_splits)

lemma TryFollow_True_node:
  assumes "TryFollowFailureLinkAndCollectTokens fl cfg ext iw w st = Some (True, st')"
  shows "\<exists>aux \<in> set (failure_struct_array cfg). cur_node st' = failure_link aux"
  using assms
  by (auto simp: TryFollowFailureLinkAndCollectTokens_def Get_def
           split: option.splits if_splits)

lemma TryTraverseSeveralSteps_root:
  assumes "no_edge_to_root ext"
  shows "TryTraverseSeveralSteps ext n bs = Some n' \<Longrightarrow> n' = n \<or> n' \<noteq> kRootNodeId ext"
proof (induction bs arbitrary: n)
  case Nil
  then show ?case by simp
next
  case (Cons c cs)
  from Cons.prems obtain n1 where s: "TryTraverseOneStep ext n c = Some n1"
    and r: "TryTraverseSeveralSteps ext n1 cs = Some n'"
    by (auto split: option.splits)
  from assms s have "n1 \<noteq> kRootNodeId ext" by (auto simp: no_edge_to_root_def)
  with Cons.IH [OF r] show ?case by auto
qed

text \<open>
  While the cursor of a word is at the root, no token has been emitted for the word:
  the output size is still \<open>m\<close>.
\<close>

lemma text_char_step_root:
  assumes e: "no_edge_to_root ext" and l: "no_failure_link_to_root cfg ext"
  shows "(cur_node st = kRootNodeId ext \<longrightarrow> GetCurrentOutputSize fl (out st) = m) \<Longrightarrow>
         text_char_step k fl cfg ext iw w bs st = Some (b, st') \<Longrightarrow>
         (cur_node st' = kRootNodeId ext \<longrightarrow> GetCurrentOutputSize fl (out st') = m)"
proof (induction k arbitrary: st)
  case 0
  then show ?case
    using TryTraverseSeveralSteps_root [OF e, of "cur_node st" bs]
    by (auto split: option.splits)
next
  case (Suc k)
  show ?case
  proof (cases "TryTraverseSeveralSteps ext (cur_node st) bs")
    case (Some n')
    with Suc.prems TryTraverseSeveralSteps_root [OF e, of "cur_node st" bs n']
    show ?thesis by auto
  next
    case None
    with Suc.prems(2) obtain c st1 where
      f: "TryFollowFailureLinkAndCollectTokens fl cfg ext iw w st = Some (c, st1)"
      by (auto split: option.splits)
    show ?thesis
    proof (cases c)
      case True
      with TryFollow_True_node [of fl cfg ext iw w st st1] f l
      have "cur_node st1 \<noteq> kRootNodeId ext"
        by (auto simp: no_failure_link_to_root_def)
      moreover from True None f Suc.prems(2)
      have "text_char_step k fl cfg ext iw w bs st1 = Some (b, st')" by simp
      ultimately show ?thesis using Suc.IH [of st1] by simp
    next
      case False
      with TryFollow_False [of fl cfg ext iw w st st1] f None Suc.prems show ?thesis
        by auto
    qed
  qed
qed

lemma text_char_step_aligned:
  assumes "aligned fl (out st)"
    and "text_char_step k fl cfg ext iw w bs st = Some (b, st')"
  shows "aligned fl (out st')"
  using text_char_step_invariant
          [of "\<lambda>s. aligned fl (out s)" fl cfg ext iw w st k bs b st']
        assms
  by (simp add: Append_aligned)

lemma remaining_loop_aligned:
  assumes "aligned fl (out st)"
    and "remaining_loop k fl cfg ext iw w st = Some (b, st')"
  shows "aligned fl (out st')"
  using remaining_loop_invariant
          [of "\<lambda>s. aligned fl (out s)" fl cfg ext iw w st k b st']
        assms
  by (simp add: Append_aligned)

lemma foldl_Append_invariant:
  assumes app: "\<And>v s. P s \<Longrightarrow> P (AppendTokenToOutput fl cfg ext iw w v s)"
  shows "P st \<Longrightarrow> P (foldl (\<lambda>s v. AppendTokenToOutput fl cfg ext iw w v s) st vs)"
  by (induction vs arbitrary: st) (simp_all add: app)

text \<open>
  The properties of the word state that one run of the trie matching loop keeps,
  with the rollback marker.
\<close>

lemma trie_match_loop_invariant:
  assumes step: "\<And>bs st b st'. P st \<Longrightarrow>
      text_char_step fuel fl cfg ext (drop ws input_text) (int ws) bs st = Some (b, st') \<Longrightarrow>
      P st'"
  shows "P (word s) \<Longrightarrow> trie_match_loop n fuel fl cfg ext input_text ws s = Some s1 \<Longrightarrow>
         P (word s1) \<and> original_num_tokens s1 = original_num_tokens s"
proof (induction n arbitrary: s)
  case 0
  then show ?case by (auto split: if_splits)
next
  case (Suc n)
  show ?case
  proof (cases "cur_pos s < length input_text")
    case False
    with Suc.prems show ?thesis by auto
  next
    case True
    let ?s1 = "s\<lparr>prev_unicode_char := cur_unicode_char s,
                  next_pos := snd (U8_NEXT ext input_text (cur_pos s)),
                  cur_unicode_char := fst (U8_NEXT ext input_text (cur_pos s))\<rparr>"
    show ?thesis
    proof (cases "word_byte_length_so_far ?s1 + int (next_pos ?s1) - int (cur_pos ?s1)
                    > int (max_bytes_per_token cfg)")
      case True
      with \<open>cur_pos s < length input_text\<close> Suc.prems(2) have "s1 = ?s1"
        by (simp add: Let_def)
      with Suc.prems(1) show ?thesis by simp
    next
      case False
      note nb = this
      from Suc.prems(2) \<open>cur_pos s < length input_text\<close> nb obtain b st' where
        st: "text_char_step fuel fl cfg ext (drop ws input_text) (int ws)
               (substr input_text (cur_pos ?s1) (int (next_pos ?s1) - int (cur_pos ?s1)))
               (word ?s1) = Some (b, st')"
        by (auto simp: Let_def split: option.splits)
      from Suc.prems(1) have "P (word ?s1)" by simp
      from step [OF this st] have p: "P st'" .
      show ?thesis
      proof (cases b)
        case False
        with Suc.prems(2) \<open>cur_pos s < length input_text\<close> nb st
        have "s1 = ?s1\<lparr>word := st'\<rparr>" by (simp add: Let_def)
        with p show ?thesis by simp
      next
        case True
        let ?s2 = "?s1\<lparr>word := st',
                       word_byte_length_so_far :=
                         word_byte_length_so_far ?s1 + int (next_pos ?s1) - int (cur_pos ?s1),
                       cur_pos := next_pos ?s1\<rparr>"
        from True Suc.prems(2) \<open>cur_pos s < length input_text\<close> nb st
        have "trie_match_loop n fuel fl cfg ext input_text ws ?s2 = Some s1"
          by (simp add: Let_def)
        moreover from p have "P (word ?s2)" by simp
        ultimately show ?thesis using Suc.IH [of ?s2] by simp
      qed
    qed
  qed
qed


lemma TryHandle_True_marker:
  assumes "TryHandleTheInputWordBeingSuffixIndicatorItself fl cfg ext iw w m st = (True, st1)"
    and a: "aligned fl (out st)" and k: "keeps fl m ou (out st)"
  shows "aligned fl (out st1) \<and> keeps fl m ou (out st1)"
proof -
  from a have f: "kGetPieces fl \<or> kGetIds fl" by (simp add: aligned_def)
  have "aligned fl (out (foldl (\<lambda>s v. AppendTokenToOutput fl cfg ext iw w v s) st vs)) \<and>
        keeps fl m ou (out (foldl (\<lambda>s v. AppendTokenToOutput fl cfg ext iw w v s) st vs))"
    for vs
    using foldl_Append_invariant
            [of "\<lambda>s. aligned fl (out s) \<and> keeps fl m ou (out s)" fl cfg ext iw w st vs]
          a k
    by (simp add: Append_aligned Append_keeps)
  with assms(1) Reset_marker [OF k f, of cfg w "int (length iw)"] show ?thesis
    by (auto simp: TryHandleTheInputWordBeingSuffixIndicatorItself_def split: if_splits)
qed

lemma HandleRemaining_marker:
  assumes a: "aligned fl (out st)" and k: "keeps fl m ou (out st)"
    and r: "cur_node st = kRootNodeId ext \<longrightarrow> GetCurrentOutputSize fl (out st) = m"
    and h: "HandleTheRemainingStringOnTriePath fuel fl cfg ext iw w m st = Some (n, st')"
  shows "aligned fl (out st') \<and> keeps fl m ou (out st') \<and>
         n = GetCurrentOutputSize fl (out st')"
proof (cases "cur_node st = kRootNodeId ext")
  case True
  with h have "n = m" "st' = st" by (simp_all add: HandleTheRemainingStringOnTriePath_def)
  with a k r True show ?thesis by simp
next
  case False
  from a have f: "kGetPieces fl \<or> kGetIds fl" by (simp add: aligned_def)
  obtain b st1 where t:
    "TryHandleTheInputWordBeingSuffixIndicatorItself fl cfg ext iw w m st = (b, st1)"
    by (cases "TryHandleTheInputWordBeingSuffixIndicatorItself fl cfg ext iw w m st")
  show ?thesis
  proof (cases b)
    case True
    with False h t have "n = GetCurrentOutputSize fl (out st1) \<and> st' = st1"
      by (auto simp: HandleTheRemainingStringOnTriePath_def)
    moreover from t True
    have "TryHandleTheInputWordBeingSuffixIndicatorItself fl cfg ext iw w m st = (True, st1)"
      by simp
    from TryHandle_True_marker [OF this a k]
    have "aligned fl (out st1) \<and> keeps fl m ou (out st1)" .
    ultimately show ?thesis by simp
  next
    case nb: False
    with t have st1: "st1 = st"
      using TryHandle_False [of fl cfg ext iw w m st st1] by simp
    from False h t nb st1 obtain c st2 where
      l: "remaining_loop fuel fl cfg ext iw w st = Some (c, st2)"
      by (auto simp: HandleTheRemainingStringOnTriePath_def split: option.splits)
    have a2: "aligned fl (out st2)" by (rule remaining_loop_aligned [OF a l])
    have k2: "keeps fl m ou (out st2)" by (rule remaining_loop_keeps [OF k l])
    show ?thesis
    proof (cases c)
      case True
      with False h t nb st1 l have "n = GetCurrentOutputSize fl (out st2) \<and> st' = st2"
        by (auto simp: HandleTheRemainingStringOnTriePath_def)
      with a2 k2 show ?thesis by simp
    next
      case False
      with \<open>cur_node st \<noteq> kRootNodeId ext\<close> h t nb st1 l
      have "n = fst (ResetOutputAppendUnknownToken fl cfg w (int (length iw)) m (out st2))"
        "out st' = snd (ResetOutputAppendUnknownToken fl cfg w (int (length iw)) m (out st2))"
        by (auto simp: HandleTheRemainingStringOnTriePath_def split: prod.splits)
      with Reset_marker [OF k2 f, of cfg w "int (length iw)"] show ?thesis by simp
    qed
  qed
qed

lemma outside_trie_match_loop_marker:
  assumes a: "aligned fl (out (word s1))" and k: "keeps fl m ou (out (word s1))"
    and r: "cur_node (word s1) = kRootNodeId ext \<longrightarrow>
              GetCurrentOutputSize fl (out (word s1)) = m"
    and o: "original_num_tokens s1 = m"
    and h: "outside_trie_match_loop fuel fl cfg ext input_text ws s1 = Some (b, s')"
  shows "aligned fl (out (word s')) \<and> keeps fl m ou (out (word s')) \<and>
         original_num_tokens s' = GetCurrentOutputSize fl (out (word s'))"
proof -
  from a have f: "kGetPieces fl \<or> kGetIds fl" by (simp add: aligned_def)
  show ?thesis
  proof (cases "cur_pos s1 \<ge> length input_text")
    case True
    with h o obtain n st' where
      hr: "HandleTheRemainingStringOnTriePath fuel fl cfg ext (drop ws input_text) (int ws) m
             (word s1) = Some (n, st')"
      and s': "s' = s1\<lparr>original_num_tokens := n, word := st'\<rparr>"
      by (auto simp: outside_trie_match_loop_def split: option.splits)
    from HandleRemaining_marker [OF a k r hr] s' show ?thesis by simp
  next
    case False
    note inside = this
    show ?thesis
    proof (cases "is_word_boundary ext s1")
      case True
      with inside h o obtain n st' where
        hr: "HandleTheRemainingStringOnTriePath fuel fl cfg ext
               (take (cur_pos s1 - ws) (drop ws input_text)) (int ws) m (word s1)
             = Some (n, st')"
        and s': "original_num_tokens s' = n \<and> word s' = st'"
        by (auto simp: outside_trie_match_loop_def split: option.splits)
      from HandleRemaining_marker [OF a k r hr] s' show ?thesis by simp
    next
      case False
      with inside h o obtain e p where
        "SkipTheRemainingOfWordAndTrailingWhiteSpaces fuel ext input_text
           (next_pos s1, next_pos s1) = Some (e, p)"
        and s': "s' = s1\<lparr>cur_pos := p,
                   original_num_tokens :=
                     fst (ResetOutputAppendUnknownToken fl cfg (int ws) (int e - int ws) m
                            (out (word s1))),
                   word := (word s1)\<lparr>out :=
                     snd (ResetOutputAppendUnknownToken fl cfg (int ws) (int e - int ws) m
                            (out (word s1)))\<rparr>\<rparr>"
        by (auto simp: outside_trie_match_loop_def split: option.splits prod.splits)
      with Reset_marker [OF k f, of cfg "int ws" "int e - int ws"] show ?thesis by simp
    qed
  qed
qed

lemma tokenize_word_marker:
  assumes e: "no_edge_to_root ext" and l: "no_failure_link_to_root cfg ext"
    and a: "aligned fl (out (word s))"
    and o: "original_num_tokens s = GetCurrentOutputSize fl (out (word s))"
    and h: "tokenize_word fuel fl cfg ext input_text s = Some (b, s')"
  shows "aligned fl (out (word s')) \<and>
         keeps fl (original_num_tokens s) (out (word s)) (out (word s')) \<and>
         original_num_tokens s' = GetCurrentOutputSize fl (out (word s'))"
proof -
  let ?m = "original_num_tokens s"
  let ?P = "\<lambda>st. aligned fl (out st) \<and> keeps fl ?m (out (word s)) (out st) \<and>
                 (cur_node st = kRootNodeId ext \<longrightarrow> GetCurrentOutputSize fl (out st) = ?m)"
  from h obtain s1 where
    m: "trie_match_loop fuel fuel fl cfg ext input_text (cur_pos s) (word_start_state ext s)
          = Some s1"
    and ou: "outside_trie_match_loop fuel fl cfg ext input_text (cur_pos s) s1 = Some (b, s')"
    by (auto simp: tokenize_word_word_start_state split: option.splits)
  have p0: "?P (word (word_start_state ext s))"
    using a o keeps_same [of fl "out (word s)" ?m] by (simp add: word_start_state_def)
  have "?P (word s1) \<and> original_num_tokens s1 = original_num_tokens (word_start_state ext s)"
  proof (rule trie_match_loop_invariant [where P = ?P, OF _ p0 m])
    fix bs st c st'
    assume p: "?P st"
      and t: "text_char_step fuel fl cfg ext (drop (cur_pos s) input_text) (int (cur_pos s))
                bs st = Some (c, st')"
    from p text_char_step_aligned [OF _ t] text_char_step_keeps [OF _ t]
      text_char_step_root [OF e l _ t, of ?m]
    show "?P st'" by blast
  qed
  then have p1: "?P (word s1)" and o1: "original_num_tokens s1 = ?m"
    by (simp_all add: word_start_state_def)
  from outside_trie_match_loop_marker [OF _ _ _ o1 ou] p1 show ?thesis by blast
qed


lemma outer_loop_state_marker:
  assumes a: "aligned fl ou" and e: "no_edge_to_root ext"
    and l: "no_failure_link_to_root cfg ext"
    and st: "outer_loop_state fuel fl cfg ext input_text ou s"
  shows "original_num_tokens s = GetCurrentOutputSize fl (out (word s)) \<and>
         aligned fl (out (word s)) \<and>
         keeps fl (GetCurrentOutputSize fl ou) ou (out (word s))"
  using st
proof (induction rule: outer_loop_state.induct)
  case first
  with a keeps_refl [OF a] show ?case by (simp add: initial_text_state_def)
next
  case (next_word s s')
  from next_word.IH have o: "original_num_tokens s = GetCurrentOutputSize fl (out (word s))"
    and al: "aligned fl (out (word s))"
    and k: "keeps fl (GetCurrentOutputSize fl ou) ou (out (word s))" by simp_all
  from tokenize_word_marker [OF e l al o next_word.hyps(3)]
  have al': "aligned fl (out (word s'))"
    and k': "keeps fl (original_num_tokens s) (out (word s)) (out (word s'))"
    and o': "original_num_tokens s' = GetCurrentOutputSize fl (out (word s'))" by simp_all
  from a al have f: "kGetPieces fl \<or> kGetIds fl" by (simp add: aligned_def)
  from keeps_size [OF k f al] o have "GetCurrentOutputSize fl ou \<le> original_num_tokens s"
    by simp
  from keeps_trans [OF k k' this] al' o' show ?case by simp
qed

lemma text_loop_keeps:
  assumes e: "no_edge_to_root ext" and l: "no_failure_link_to_root cfg ext"
  shows "aligned fl (out (word s)) \<Longrightarrow>
         original_num_tokens s = GetCurrentOutputSize fl (out (word s)) \<Longrightarrow>
         text_loop n fuel fl cfg ext input_text s = Some sf \<Longrightarrow>
         keeps fl (original_num_tokens s) (out (word s)) (out (word sf))"
proof (induction n arbitrary: s)
  case 0
  then have "sf = s" by (auto split: if_splits)
  with 0 keeps_same [of fl "out (word s)" "original_num_tokens s"] show ?case by simp
next
  case (Suc n)
  show ?case
  proof (cases "cur_pos s < length input_text")
    case False
    with Suc.prems have "sf = s" by simp
    with Suc.prems keeps_same [of fl "out (word s)" "original_num_tokens s"] show ?thesis
      by simp
  next
    case True
    with Suc.prems(3) obtain b s' where
      t: "tokenize_word fuel fl cfg ext input_text s = Some (b, s')"
      by (auto split: option.splits)
    from tokenize_word_marker [OF e l Suc.prems(1) Suc.prems(2) t]
    have al': "aligned fl (out (word s'))"
      and k': "keeps fl (original_num_tokens s) (out (word s)) (out (word s'))"
      and o': "original_num_tokens s' = GetCurrentOutputSize fl (out (word s'))" by simp_all
    show ?thesis
    proof (cases b)
      case False
      with True t Suc.prems(3) have "sf = s'" by simp
      with k' show ?thesis by simp
    next
      case b: True
      with True t Suc.prems(3) have "text_loop n fuel fl cfg ext input_text s' = Some sf"
        by simp
      from Suc.IH [OF al' o' this]
      have k2: "keeps fl (original_num_tokens s') (out (word s')) (out (word sf))" .
      from al' have f: "kGetPieces fl \<or> kGetIds fl" by (simp add: aligned_def)
      from keeps_size [OF k' f al'] o' have "original_num_tokens s \<le> original_num_tokens s'"
        by simp
      from keeps_trans [OF k' k2 this] show ?thesis .
    qed
  qed
qed

text \<open>
  The rollback marker on a trie with no edge into the root and failure links that
  never lead to the root. Let the vectors written to have the same length when
  \<open>TokenizeTextImpl\<close> starts. Then at the start of every word (every
  \<open>outer_loop_state\<close>) the rollback marker \<open>original_num_tokens\<close> is the current
  output size, so it covers all tokens of the words before; the outputs the caller
  passed are still the first entries; one more word (\<open>tokenize_word\<close>, which may end
  in a reset to the unknown token) leaves the first \<open>original_num_tokens\<close> entries of
  every output vector as they were, does not decrease the marker and leaves it at
  the output size again; and so do all the remaining words together (\<open>text_loop\<close>):
  the output of the earlier words is a prefix of the final output.
\<close>

theorem flushed_words_are_stable:
  assumes "aligned fl ou" and "no_edge_to_root ext" and "no_failure_link_to_root cfg ext"
    and "outer_loop_state fuel fl cfg ext input_text ou s"
  shows "original_num_tokens s = GetCurrentOutputSize fl (out (word s)) \<and>
         aligned fl (out (word s)) \<and>
         keeps fl (GetCurrentOutputSize fl ou) ou (out (word s)) \<and>
         (\<forall>b s'. tokenize_word fuel fl cfg ext input_text s = Some (b, s') \<longrightarrow>
            keeps fl (original_num_tokens s) (out (word s)) (out (word s')) \<and>
            original_num_tokens s \<le> original_num_tokens s' \<and>
            original_num_tokens s' = GetCurrentOutputSize fl (out (word s'))) \<and>
         (\<forall>n sf. text_loop n fuel fl cfg ext input_text s = Some sf \<longrightarrow>
            keeps fl (original_num_tokens s) (out (word s)) (out (word sf)))"
proof -
  note m = outer_loop_state_marker [OF assms]
  from m have o: "original_num_tokens s = GetCurrentOutputSize fl (out (word s))"
    and al: "aligned fl (out (word s))" by simp_all
  from al have f: "kGetPieces fl \<or> kGetIds fl" by (simp add: aligned_def)
  have "keeps fl (original_num_tokens s) (out (word s)) (out (word s')) \<and>
        original_num_tokens s \<le> original_num_tokens s' \<and>
        original_num_tokens s' = GetCurrentOutputSize fl (out (word s'))"
    if t: "tokenize_word fuel fl cfg ext input_text s = Some (b, s')" for b s'
  proof -
    note w = tokenize_word_marker [OF assms(2) assms(3) al o t]
    from w keeps_size [of fl "original_num_tokens s" "out (word s)" "out (word s')"] f
    show ?thesis by simp
  qed
  moreover have "keeps fl (original_num_tokens s) (out (word s)) (out (word sf))"
    if "text_loop n fuel fl cfg ext input_text s = Some sf" for n sf
    by (rule text_loop_keeps [OF assms(2) assms(3) al o that])
  ultimately show ?thesis using m by blast
qed


text \<open>
  On the example, in the text \<open>ab abq\<close>: after the first word the marker is 2 (the
  tokens \<open>a\<close> and \<open>##b\<close>); the second word emits \<open>a\<close> and \<open>##b\<close> again, cannot match
  \<open>q\<close> and is reset to one unknown token; the two tokens of the first word stay.
\<close>

theorem flushed_words_are_stable_witness:
  "tokenize_word 3 all_outputs example_config example_externals ''ab abq''
     (initial_text_state all_outputs example_externals no_outputs) =
   Some (True,
     \<lparr>cur_pos = 3, next_pos = 3, original_num_tokens = 2, prev_unicode_char = 98,
      cur_unicode_char = 32, word_byte_length_so_far = 2,
      word = \<lparr>cur_offset_in_input_word = 2, cur_node = 2,
              out = \<lparr>output_pieces = [''a'', ''##b''], output_ids = [0, 2],
                     output_start_offsets = [0, 1], output_end_offsets = [1, 2]\<rparr>\<rparr>\<rparr>) \<and>
   text_loop 3 3 all_outputs example_config example_externals ''ab abq''
     \<lparr>cur_pos = 3, next_pos = 3, original_num_tokens = 2, prev_unicode_char = 98,
      cur_unicode_char = 32, word_byte_length_so_far = 2,
      word = \<lparr>cur_offset_in_input_word = 2, cur_node = 2,
              out = \<lparr>output_pieces = [''a'', ''##b''], output_ids = [0, 2],
                     output_start_offsets = [0, 1], output_end_offsets = [1, 2]\<rparr>\<rparr>\<rparr> =
   Some \<lparr>cur_pos = 6, next_pos = 6, original_num_tokens = 3, prev_unicode_char = 98,
      cur_unicode_char = 113, word_byte_length_so_far = 2,
      word = \<lparr>cur_offset_in_input_word = 2, cur_node = 2,
              out = \<lparr>output_pieces = [''a'', ''##b'', ''[UNK]''], output_ids = [0, 2, 5],
                     output_start_offsets = [0, 1, 3],
                     output_end_offsets = [1, 2, 6]\<rparr>\<rparr>\<rparr> \<and>
   keeps all_outputs 2
     \<lparr>output_pieces = [''a'', ''##b''], output_ids = [0, 2],
      output_start_offsets = [0, 1], output_end_offsets = [1, 2]\<rparr>
     \<lparr>output_pieces = [''a'', ''##b'', ''[UNK]''], output_ids = [0, 2, 5],
      output_start_offsets = [0, 1, 3], output_end_offsets = [1, 2, 6]\<rparr>"
proof -
  let ?s0 = "initial_text_state all_outputs example_externals no_outputs"
  let ?s1 = "\<lparr>cur_pos = 3, next_pos = 3, original_num_tokens = 2, prev_unicode_char = 98,
      cur_unicode_char = 32, word_byte_length_so_far = 2,
      word = \<lparr>cur_offset_in_input_word = 2, cur_node = 2,
              out = \<lparr>output_pieces = [''a'', ''##b''], output_ids = [0, 2],
                     output_start_offsets = [0, 1], output_end_offsets = [1, 2]\<rparr>\<rparr>\<rparr>"
  let ?sf = "\<lparr>cur_pos = 6, next_pos = 6, original_num_tokens = 3, prev_unicode_char = 98,
      cur_unicode_char = 113, word_byte_length_so_far = 2,
      word = \<lparr>cur_offset_in_input_word = 2, cur_node = 2,
              out = \<lparr>output_pieces = [''a'', ''##b'', ''[UNK]''], output_ids = [0, 2, 5],
                     output_start_offsets = [0, 1, 3],
                     output_end_offsets = [1, 2, 6]\<rparr>\<rparr>\<rparr>"
  have al: "aligned all_outputs no_outputs"
    by (simp add: aligned_def example_defs GetCurrentOutputSize_def)
  have e: "no_edge_to_root example_externals"
    by (simp add: no_edge_to_root_def example_defs)
  have l: "no_failure_link_to_root example_config example_externals"
    by (simp add: no_failure_link_to_root_def example_defs)
  have t: "tokenize_word 3 all_outputs example_config example_externals ''ab abq'' ?s0
             = Some (True, ?s1)"
    by (simp add: example_defs word_defs text_defs)
  have r0: "outer_loop_state 3 all_outputs example_config example_externals ''ab abq''
              no_outputs ?s0"
    by (rule outer_loop_state.first)
  have "cur_pos ?s0 < length ''ab abq''" by (simp add: initial_text_state_def)
  from outer_loop_state.next_word [OF r0 this t]
  have r1: "outer_loop_state 3 all_outputs example_config example_externals ''ab abq''
              no_outputs ?s1" .
  have f: "text_loop 3 3 all_outputs example_config example_externals ''ab abq'' ?s1
             = Some ?sf"
    by (simp add: example_defs word_defs text_defs)
  from flushed_words_are_stable [OF al e l r1] f
  have "keeps all_outputs (original_num_tokens ?s1) (out (word ?s1)) (out (word ?sf))"
    by blast
  with t f show ?thesis by simp
qed

subsection \<open>A word given up in the middle\<close>

text \<open>
  On such a trie the end-to-end tokenizer gives a word it cannot tokenize, and that
  does not stop at a boundary, the outputs as they were when the word began followed
  by one unknown token from the start of the word to \<open>end_of_word\<close>.
\<close>

lemma tokenize_word_unknown:
  assumes al: "aligned fl ou" and e: "no_edge_to_root ext"
    and l: "no_failure_link_to_root cfg ext"
    and st: "outer_loop_state fuel fl cfg ext input_text ou s"
    and m: "trie_match_loop fuel fuel fl cfg ext input_text (cur_pos s)
              (word_start_state ext s) = Some s1"
    and lt: "cur_pos s1 < length input_text"
    and nb: "\<not> is_word_boundary ext s1"
    and sk: "SkipTheRemainingOfWordAndTrailingWhiteSpaces fuel ext input_text
               (next_pos s1, next_pos s1) = Some (end_of_word, pos)"
  shows "tokenize_word fuel fl cfg ext input_text s =
           Some (True,
             s1\<lparr>cur_pos := pos,
                original_num_tokens := GetCurrentOutputSize fl (out (word s)) + 1,
                word := (word s1)\<lparr>out := append_unknown fl cfg (int (cur_pos s))
                          (int end_of_word - int (cur_pos s)) (out (word s))\<rparr>\<rparr>)"
proof -
  from outer_loop_state_marker [OF al e l st]
  have o: "original_num_tokens s = GetCurrentOutputSize fl (out (word s))"
    and a: "aligned fl (out (word s))" by simp_all
  let ?m = "GetCurrentOutputSize fl (out (word s))"
  let ?P = "\<lambda>st. keeps fl ?m (out (word s)) (out st)"
  have p0: "?P (word (word_start_state ext s))"
    using keeps_refl [OF a] by (simp add: word_start_state_def)
  have "?P (word s1) \<and> original_num_tokens s1 = original_num_tokens (word_start_state ext s)"
  proof (rule trie_match_loop_invariant [where P = ?P, OF _ p0 m])
    fix bs st c st'
    assume "?P st"
      and "text_char_step fuel fl cfg ext (drop (cur_pos s) input_text) (int (cur_pos s))
             bs st = Some (c, st')"
    then show "?P st'" by (rule text_char_step_keeps)
  qed
  with o have k: "keeps fl ?m (out (word s)) (out (word s1))"
    and o1: "original_num_tokens s1 = ?m" by (simp_all add: word_start_state_def)
  from Reset_aligned [OF a k] m lt nb sk o1 show ?thesis
    by (simp add: tokenize_word_word_start_state outside_trie_match_loop_def)
qed


text \<open>
  \<open>SkipTheRemainingOfWordAndTrailingWhiteSpaces\<close> returns when the decoder advances
  and the fuel covers the rest of the text. The end of the word it returns is an
  index the decoder arrives at from the start index, and is the end of the text or
  the index of a white space code point, which is skipped, or of a punctuation or
  CJK code point, which is not.
\<close>

lemma Skip_returns:
  assumes adv: "decoder_advances ext t"
  shows "length t - p0 < n \<Longrightarrow>
         SkipTheRemainingOfWordAndTrailingWhiteSpaces n ext t (e0, p0) \<noteq> None"
proof (induction n arbitrary: e0 p0)
  case 0
  then show ?case by simp
next
  case (Suc n)
  show ?case
  proof (cases "p0 < length t")
    case False
    then show ?thesis by simp
  next
    case True
    with adv have "p0 < snd (U8_NEXT ext t p0)" by (simp add: decoder_advances_def)
    with Suc.prems True have "length t - snd (U8_NEXT ext t p0) < n" by arith
    from Suc.IH [OF this] True show ?thesis by simp
  qed
qed

lemma Skip_end_of_word:
  "SkipTheRemainingOfWordAndTrailingWhiteSpaces n ext t (p0, p0) = Some (e, p) \<Longrightarrow>
   code_point_starts ext t p0 e \<and>
   (if e < length t
    then (if u_isUWhiteSpace ext (fst (U8_NEXT ext t e)) then p = snd (U8_NEXT ext t e)
          else IsPunctuationOrChineseChar ext (fst (U8_NEXT ext t e)) \<and> p = e)
    else p = e)"
proof (induction n arbitrary: p0)
  case 0
  then show ?case by (auto split: if_splits intro: code_point_starts.here)
next
  case (Suc n)
  show ?case
  proof (cases "p0 < length t")
    case False
    with Suc.prems show ?thesis by (auto intro: code_point_starts.here)
  next
    case True
    show ?thesis
    proof (cases "u_isUWhiteSpace ext (fst (U8_NEXT ext t p0)) \<or>
                  IsPunctuationOrChineseChar ext (fst (U8_NEXT ext t p0))")
      case True
      with Suc.prems \<open>p0 < length t\<close> show ?thesis
        by (auto split: if_splits intro: code_point_starts.here)
    next
      case False
      with Suc.prems True have
        "SkipTheRemainingOfWordAndTrailingWhiteSpaces n ext t
           (snd (U8_NEXT ext t p0), snd (U8_NEXT ext t p0)) = Some (e, p)"
        by simp
      from Suc.IH [OF this] code_point_starts_first [OF True, of ext e]
      show ?thesis by blast
    qed
  qed
qed

section \<open>The rollback marker on a trie whose failure links lead to the root\<close>

text \<open>
  Claim C9 on the model with the empty suffix indicator, in the text \<open>a q\<close>. The
  matching loop of the first word emits the token \<open>a\<close> at the space and follows the
  failure link of \<open>a\<close> to the suffix root, which is the root.
  \<open>HandleTheRemainingStringOnTriePath\<close> finds the cursor at the root and returns as
  for an empty word, before the statement that advances \<open>original_num_tokens\<close>: the
  marker stays 0 with one token in the outputs. The next word \<open>q\<close> is unknown;
  \<open>ResetOutputAppendUnknownToken\<close> resizes the outputs to one entry and writes the
  unknown token over \<open>a\<close>. The token of the first word is not in the result.
\<close>

theorem flushed_word_removed_by_reset:
  "tokenize_word 3 all_outputs plain_config plain_externals ''a q''
     (initial_text_state all_outputs plain_externals no_outputs) =
   Some (True,
     \<lparr>cur_pos = 2, next_pos = 2, original_num_tokens = 0, prev_unicode_char = 97,
      cur_unicode_char = 32, word_byte_length_so_far = 1,
      word = \<lparr>cur_offset_in_input_word = 1, cur_node = 0,
              out = \<lparr>output_pieces = [''a''], output_ids = [0],
                     output_start_offsets = [0], output_end_offsets = [1]\<rparr>\<rparr>\<rparr>) \<and>
   tokenize_word 3 all_outputs plain_config plain_externals ''a q''
     \<lparr>cur_pos = 2, next_pos = 2, original_num_tokens = 0, prev_unicode_char = 97,
      cur_unicode_char = 32, word_byte_length_so_far = 1,
      word = \<lparr>cur_offset_in_input_word = 1, cur_node = 0,
              out = \<lparr>output_pieces = [''a''], output_ids = [0],
                     output_start_offsets = [0], output_end_offsets = [1]\<rparr>\<rparr>\<rparr> =
   Some (True,
     \<lparr>cur_pos = 3, next_pos = 3, original_num_tokens = 1, prev_unicode_char = 32,
      cur_unicode_char = 113, word_byte_length_so_far = 0,
      word = \<lparr>cur_offset_in_input_word = 0, cur_node = 0,
              out = \<lparr>output_pieces = [''[UNK]''], output_ids = [1],
                     output_start_offsets = [2], output_end_offsets = [3]\<rparr>\<rparr>\<rparr>) \<and>
   TokenizeTextImpl 3 all_outputs plain_config plain_externals ''a q'' no_outputs =
   Some \<lparr>output_pieces = [''[UNK]''], output_ids = [1],
         output_start_offsets = [2], output_end_offsets = [3]\<rparr> \<and>
   \<not> keeps all_outputs 1
       \<lparr>output_pieces = [''a''], output_ids = [0],
        output_start_offsets = [0], output_end_offsets = [1]\<rparr>
       \<lparr>output_pieces = [''[UNK]''], output_ids = [1],
        output_start_offsets = [2], output_end_offsets = [3]\<rparr>"
  by (simp add: example_defs model_defs word_defs text_defs keeps_def)

text \<open>
  Claim C2 on the same model, in the text \<open>a qq\<close>. The word \<open>a\<close> alone gives the
  token \<open>a\<close>. When the unknown word \<open>qq\<close> begins, the outputs hold that token, but
  the marker is 0 by the same return at the root; the outputs are rolled back to no
  token, not to their size before the word, and the result is the unknown token
  alone, where the claim has \<open>a\<close> followed by the unknown token (the last equation).
\<close>

theorem unknown_word_rolled_back_too_far:
  "Tokenize all_outputs 3 plain_config plain_externals ''a'' no_outputs 0 =
   Some \<lparr>output_pieces = [''a''], output_ids = [0],
         output_start_offsets = [0], output_end_offsets = [1]\<rparr> \<and>
   tokenize_word 3 all_outputs plain_config plain_externals ''a qq''
     (initial_text_state all_outputs plain_externals no_outputs) =
   Some (True,
     \<lparr>cur_pos = 2, next_pos = 2, original_num_tokens = 0, prev_unicode_char = 97,
      cur_unicode_char = 32, word_byte_length_so_far = 1,
      word = \<lparr>cur_offset_in_input_word = 1, cur_node = 0,
              out = \<lparr>output_pieces = [''a''], output_ids = [0],
                     output_start_offsets = [0], output_end_offsets = [1]\<rparr>\<rparr>\<rparr>) \<and>
   Tokenize all_outputs 3 plain_config plain_externals ''a qq'' no_outputs 0 =
   Some \<lparr>output_pieces = [''[UNK]''], output_ids = [1],
         output_start_offsets = [2], output_end_offsets = [4]\<rparr> \<and>
   append_unknown all_outputs plain_config 2 2
     \<lparr>output_pieces = [''a''], output_ids = [0],
      output_start_offsets = [0], output_end_offsets = [1]\<rparr> =
   \<lparr>output_pieces = [''a'', ''[UNK]''], output_ids = [0, 1],
    output_start_offsets = [0, 2], output_end_offsets = [1, 4]\<rparr>"
  by (simp add: example_defs model_defs word_defs text_defs append_unknown_def)

section \<open>The word offset in the emitted offsets\<close>



























section \<open>Detokenizing the tokens of a single word\<close>

lemma foldl_spec_detokenize_step_suffixes:
  "list_all (is_suffix_id cfg) ids \<Longrightarrow> pending \<noteq> [] \<Longrightarrow>
   foldl (spec_detokenize_step cfg) (pending, ws) ids =
     (pending @ map (vocab_entry cfg) ids, ws)"
proof (induction ids arbitrary: pending)
  case Nil
  then show ?case by simp
next
  case (Cons i ids)
  from Cons.prems have s: "is_suffix_id cfg i" and r: "list_all (is_suffix_id cfg) ids"
    by simp_all
  have "spec_detokenize_step cfg (pending, ws) i = (pending @ [vocab_entry cfg i], ws)"
    using s Cons.prems(2)
    by (simp add: spec_detokenize_step_def is_suffix_id_def vocab_entry_def Let_def)
  with Cons.IH [OF r, of "pending @ [vocab_entry cfg i]"] show ?case by simp
qed

lemma detokenize_one_word:
  assumes s: "support_detokenization cfg" and o: "one_word cfg ids"
  shows "DetokenizeToTokens cfg ids = Some (Inr [word_of_ids cfg ids])"
proof -
  from o obtain i rest where ids: "ids = i # rest" and v: "ids_in_vocab cfg ids"
    and r: "list_all (is_suffix_id cfg) rest"
    by (cases ids) (auto simp: one_word_def)
  let ?p = "(if is_suffix_id cfg i then [suffix_indicator cfg] else []) @ [vocab_entry cfg i]"
  have st: "spec_detokenize_step cfg ([], []) i = (?p, [])"
    by (simp add: spec_detokenize_step_def is_suffix_id_def vocab_entry_def Let_def)
  have "foldl (spec_detokenize_step cfg) ([], []) ids =
          (?p @ map (vocab_entry cfg) rest, [])"
    using foldl_spec_detokenize_step_suffixes [OF r, of ?p "[]"] st ids by simp
  then have "spec_detokenize_to_tokens cfg ids = [word_of_ids cfg ids]"
    by (simp add: spec_detokenize_to_tokens_def spec_flush_def word_of_ids_def ids)
  moreover have "DetokenizeToTokens cfg ids = Some (Inr (spec_detokenize_to_tokens cfg ids))"
    using s v
    by (simp add: DetokenizeToTokens_def detokenize_loop_spec
        spec_detokenize_to_tokens_def spec_flush_def StrJoin_empty_separator split: prod.splits)
  ultimately show ?thesis by simp
qed


section \<open>The emitted tokens of a word spell the word\<close>

lemma take_indicator_append:
  assumes "take k s = ind" and "length ind = k"
  shows "take k (s @ t) = ind \<and> drop k (s @ t) = drop k s @ t"
proof -
  from assms have "k \<le> length s" by (metis length_take min.cobounded1)
  with assms show ?thesis by simp
qed

lemma tracks_step:
  assumes c: "consistent_model cfg ext str" and t: "tracks cfg str p n ids"
    and s: "TryTraverseOneStep ext n ch = Some n'"
  shows "tracks cfg str (p @ [ch]) n' ids"
proof -
  from c s have e: "str n' = str n @ [ch]" and np: "n' \<noteq> trie_punct_failure_link_node cfg"
    by (auto simp: consistent_model_def)
  show ?thesis
  proof (cases "ids = []")
    case True
    with t e np show ?thesis by (simp add: tracks_def)
  next
    case False
    with t have o: "one_word cfg ids"
      and tk: "take (length (suffix_indicator cfg)) (str n) = suffix_indicator cfg"
      and w: "word_of_ids cfg ids @ drop (length (suffix_indicator cfg)) (str n) = p"
      by (simp_all add: tracks_def)
    from take_indicator_append [OF tk refl, of "[ch]"] False o w e show ?thesis
      by (simp add: tracks_def)
  qed
qed

lemma one_word_append:
  assumes "one_word cfg ids" and "ids_in_vocab cfg ps" and "list_all (is_suffix_id cfg) ps"
  shows "one_word cfg (ids @ ps) \<and>
         word_of_ids cfg (ids @ ps) = word_of_ids cfg ids @ concat (map (vocab_entry cfg) ps)"
  using assms by (cases ids) (auto simp: one_word_def ids_in_vocab_def word_of_ids_def)

lemma all_suffix_hd_tl:
  "ps \<noteq> [] \<Longrightarrow> is_suffix_id cfg (hd ps) \<Longrightarrow> list_all (is_suffix_id cfg) (tl ps) \<Longrightarrow>
   list_all (is_suffix_id cfg) ps"
  by (cases ps) simp_all

lemma tracks_transition:
  assumes c: "consistent_model cfg ext str" and t: "tracks cfg str p n ids"
    and f: "failure_transition cfg ext n = Some (ps, m)"
    and u: "unk_token_id cfg \<notin> set ps"
  shows "tracks cfg str p m (ids @ ps)"
proof -
  let ?k = "length (suffix_indicator cfg)"
  from c f u have tc: "transition_consistent cfg (str n) ps (str m)"
    unfolding consistent_model_def by blast
  then have ne: "ps \<noteq> []" and v: "ids_in_vocab cfg ps"
    and tl: "list_all (is_suffix_id cfg) (tl ps)"
    and tm: "take ?k (str m) = suffix_indicator cfg"
    by (simp_all add: transition_consistent_def)
  show ?thesis
  proof (cases "ids = []")
    case True
    with t have sn: "str n = p" by (simp add: tracks_def)
    have ow: "one_word cfg ps" using ne v tl by (simp add: one_word_def)
    show ?thesis
    proof (cases "take ?k (str n) = suffix_indicator cfg")
      case True
      with tc have h: "is_suffix_id cfg (hd ps)"
        and d: "drop ?k (str n) = concat (map (vocab_entry cfg) ps) @ drop ?k (str m)"
        by (simp_all add: transition_consistent_def)
      have "str n = take ?k (str n) @ drop ?k (str n)" by simp
      with True d have "str n = suffix_indicator cfg @ concat (map (vocab_entry cfg) ps) @
                                drop ?k (str m)" by simp
      with h ne sn ow tm \<open>ids = []\<close> show ?thesis by (simp add: tracks_def word_of_ids_def)
    next
      case False
      with tc have h: "\<not> is_suffix_id cfg (hd ps)"
        and d: "str n = concat (map (vocab_entry cfg) ps) @ drop ?k (str m)"
        by (simp_all add: transition_consistent_def)
      with ne sn ow tm \<open>ids = []\<close> show ?thesis by (simp add: tracks_def word_of_ids_def)
    qed
  next
    case False
    with t have o: "one_word cfg ids" and tk: "take ?k (str n) = suffix_indicator cfg"
      and w: "word_of_ids cfg ids @ drop ?k (str n) = p"
      by (simp_all add: tracks_def)
    from tc tk have h: "is_suffix_id cfg (hd ps)"
      and d: "drop ?k (str n) = concat (map (vocab_entry cfg) ps) @ drop ?k (str m)"
      by (simp_all add: transition_consistent_def)
    from one_word_append [OF o v all_suffix_hd_tl [OF ne h tl]] w d tm False
    show ?thesis by (simp add: tracks_def)
  qed
qed

lemma failure_transition_pops:
  assumes "consistent_model cfg ext str" and "failure_transition cfg ext n = Some (ps, m)"
  shows "ps \<noteq> []"
proof (cases "unk_token_id cfg \<in> set ps")
  case True
  then show ?thesis by auto
next
  case False
  with assms have "transition_consistent cfg (str n) ps (str m)"
    unfolding consistent_model_def by blast
  then show ?thesis by (simp add: transition_consistent_def)
qed

lemma Append_ids:
  "kGetIds fl \<Longrightarrow>
   output_ids (out (AppendTokenToOutput fl cfg ext iw w v st)) =
     output_ids (out st) @ [GetTokenId ext v] \<and>
   cur_node (AppendTokenToOutput fl cfg ext iw w v st) = cur_node st"
  by (simp add: AppendTokenToOutput_def Let_def)

lemma collect_failure_pops_ids:
  assumes g: "kGetIds fl"
  shows "collect_failure_pops fl cfg ext iw w k off st = Some st' \<Longrightarrow>
         (k = 0 \<or> off + k \<le> length (failure_pops_pool cfg)) \<and>
         output_ids (out st') =
           output_ids (out st) @
           map (GetTokenId ext) (take k (drop off (failure_pops_pool cfg)))"
proof (induction k arbitrary: off st)
  case 0
  then show ?case by simp
next
  case (Suc k)
  from Suc.prems obtain v where gv: "Get (failure_pops_pool cfg) off = Some v"
    and r: "collect_failure_pops fl cfg ext iw w k (Suc off)
              (AppendTokenToOutput fl cfg ext iw w v st) = Some st'"
    by (auto split: option.splits)
  from gv have lt: "off < length (failure_pops_pool cfg)"
    and v: "v = failure_pops_pool cfg ! off"
    by (auto simp: Get_def split: if_splits)
  have dr: "drop off (failure_pops_pool cfg) =
              failure_pops_pool cfg ! off # drop (Suc off) (failure_pops_pool cfg)"
    using lt by (simp add: Cons_nth_drop_Suc)
  from Suc.IH [OF r] lt v Append_ids [OF g, of cfg ext iw w v st] show ?case
    by (auto simp: dr)
qed

lemma TryFollow_transition:
  assumes g: "kGetIds fl"
    and t: "TryFollowFailureLinkAndCollectTokens fl cfg ext iw w st = Some (True, st')"
  shows "\<exists>ps. failure_transition cfg ext (cur_node st) = Some (ps, cur_node st') \<and>
              output_ids (out st') = output_ids (out st) @ ps"
proof (cases "TryGetData ext (cur_node st)")
  case (Some v)
  with t Append_ids [OF g, of cfg ext iw w v st] show ?thesis
    by (auto simp: TryFollowFailureLinkAndCollectTokens_def failure_transition_def
             split: option.splits)
next
  case None
  with t obtain aux st1 where
    a: "Get (failure_struct_array cfg) (cur_node st) = Some aux"
    and nn: "failure_link aux \<noteq> kNullNode ext"
    and cl: "collect_failure_pops fl cfg ext iw w
               (snd (GetFailurePopsOffsetAndLength ext (failure_pops_offset_length aux)))
               (fst (GetFailurePopsOffsetAndLength ext (failure_pops_offset_length aux))) st
             = Some st1"
    and s': "st' = st1\<lparr>cur_node := failure_link aux\<rparr>"
    by (auto simp: TryFollowFailureLinkAndCollectTokens_def split: option.splits if_splits)
  from collect_failure_pops_ids [OF g cl] None a nn s' show ?thesis
    by (auto simp: failure_transition_def Let_def add.commute)
qed


lemma TryFollow_aligned:
  assumes "aligned fl (out st)"
    and "TryFollowFailureLinkAndCollectTokens fl cfg ext iw w st = Some (b, st')"
  shows "aligned fl (out st')"
  using TryFollow_invariant [of "\<lambda>s. aligned fl (out s)" fl cfg ext iw w st b st'] assms
  by (simp add: Append_aligned)

lemma TryFollow_follows:
  assumes c: "consistent_model cfg ext str" and g: "kGetIds fl"
    and f: "follows fl cfg str ids0 p st"
    and t: "TryFollowFailureLinkAndCollectTokens fl cfg ext iw w st = Some (True, st')"
  shows "follows fl cfg str ids0 p st' \<and>
         length (output_ids (out st)) < length (output_ids (out st'))"
proof -
  from TryFollow_transition [OF g t] obtain ps where
    ft: "failure_transition cfg ext (cur_node st) = Some (ps, cur_node st')"
    and ids': "output_ids (out st') = output_ids (out st) @ ps" by blast
  from failure_transition_pops [OF c ft] have ne: "ps \<noteq> []" .
  from f obtain ids where a: "aligned fl (out st)"
    and i: "output_ids (out st) = ids0 @ ids"
    and d: "unk_token_id cfg \<in> set ids \<or> tracks cfg str p (cur_node st) ids"
    by (auto simp: follows_def)
  have "unk_token_id cfg \<in> set (ids @ ps) \<or> tracks cfg str p (cur_node st') (ids @ ps)"
  proof (cases "unk_token_id cfg \<in> set ids \<or> unk_token_id cfg \<in> set ps")
    case True
    then show ?thesis by auto
  next
    case False
    with d have "tracks cfg str p (cur_node st) ids" and "unk_token_id cfg \<notin> set ps"
      by simp_all
    from tracks_transition [OF c this(1) ft this(2)] show ?thesis by simp
  qed
  with TryFollow_aligned [OF a t] i ids' ne show ?thesis
    by (auto simp: follows_def)
qed

lemma follows_step:
  assumes c: "consistent_model cfg ext str"
    and f: "follows fl cfg str ids0 p st"
    and s: "TryTraverseOneStep ext (cur_node st) ch = Some n'"
  shows "follows fl cfg str ids0 (p @ [ch]) (st\<lparr>cur_node := n'\<rparr>)"
  using f tracks_step [OF c _ s] by (auto simp: follows_def)

lemma single_word_step_follows:
  assumes c: "consistent_model cfg ext str" and g: "kGetIds fl"
  shows "follows fl cfg str ids0 p st \<Longrightarrow>
         single_word_step k fl cfg ext iw w ch st = Some (True, st') \<Longrightarrow>
         follows fl cfg str ids0 (p @ [ch]) st'"
proof (induction k arbitrary: st)
  case 0
  then show ?case using follows_step [OF c] by (auto split: option.splits)
next
  case (Suc k)
  show ?case
  proof (cases "TryTraverseOneStep ext (cur_node st) ch")
    case (Some n')
    with Suc.prems follows_step [OF c Suc.prems(1) Some] show ?thesis by auto
  next
    case None
    with Suc.prems(2) obtain b st1 where
      t: "TryFollowFailureLinkAndCollectTokens fl cfg ext iw w st = Some (b, st1)"
      by (auto split: option.splits)
    with None Suc.prems(2) have b: "b" by (cases b) auto
    with t None Suc.prems(2)
    have r: "single_word_step k fl cfg ext iw w ch st1 = Some (True, st')" by simp
    from TryFollow_follows [OF c g Suc.prems(1) t [unfolded b [THEN eqTrueI]]]
    have "follows fl cfg str ids0 p st1" by simp
    from Suc.IH [OF this r] show ?thesis .
  qed
qed

lemma single_word_loop_follows:
  assumes c: "consistent_model cfg ext str" and g: "kGetIds fl"
  shows "follows fl cfg str ids0 p st \<Longrightarrow>
         single_word_loop k fl cfg ext iw w cs st = Some (True, st') \<Longrightarrow>
         follows fl cfg str ids0 (p @ cs) st'"
proof (induction cs arbitrary: p st)
  case Nil
  then show ?case by simp
next
  case (Cons ch cs)
  from Cons.prems(2) obtain b st1 where
    s: "single_word_step k fl cfg ext iw w ch st = Some (b, st1)"
    by (auto split: option.splits)
  with Cons.prems(2) have b: "b" by (cases b) auto
  with s Cons.prems(2)
  have r: "single_word_loop k fl cfg ext iw w cs st1 = Some (True, st')" by simp
  from single_word_step_follows [OF c g Cons.prems(1) s [unfolded b [THEN eqTrueI]]]
  have "follows fl cfg str ids0 (p @ [ch]) st1" .
  from Cons.IH [OF this r] show ?case by simp
qed

lemma remaining_loop_follows:
  assumes c: "consistent_model cfg ext str" and g: "kGetIds fl"
  shows "follows fl cfg str ids0 p st \<Longrightarrow>
         remaining_loop k fl cfg ext iw w st = Some (True, st') \<Longrightarrow>
         follows fl cfg str ids0 p st' \<and>
         (cur_node st' = trie_suffix_root cfg \<or>
          cur_node st' = trie_punct_failure_link_node cfg) \<and>
         (st' = st \<or> length (output_ids (out st)) < length (output_ids (out st')))"
proof (induction k arbitrary: st)
  case 0
  then show ?case by (auto split: if_splits)
next
  case (Suc k)
  show ?case
  proof (cases "cur_node st \<noteq> trie_suffix_root cfg \<and>
                cur_node st \<noteq> trie_punct_failure_link_node cfg")
    case False
    with Suc.prems show ?thesis by auto
  next
    case True
    with Suc.prems(2) obtain b st1 where
      t: "TryFollowFailureLinkAndCollectTokens fl cfg ext iw w st = Some (b, st1)"
      by (auto split: option.splits)
    with True Suc.prems(2) have b: "b" by (cases b) auto
    with t True Suc.prems(2)
    have r: "remaining_loop k fl cfg ext iw w st1 = Some (True, st')" by simp
    from TryFollow_follows [OF c g Suc.prems(1) t [unfolded b [THEN eqTrueI]]]
    have f1: "follows fl cfg str ids0 p st1"
      and l1: "length (output_ids (out st)) < length (output_ids (out st1))" by simp_all
    from Suc.IH [OF f1 r] l1 show ?thesis by auto
  qed
qed


lemma Reset_ids:
  assumes a: "aligned fl ou" and g: "kGetIds fl"
    and k: "keeps fl (GetCurrentOutputSize fl ou) ou cur"
  shows "output_ids (snd (ResetOutputAppendUnknownToken fl cfg w n
                            (GetCurrentOutputSize fl ou) cur)) =
         output_ids ou @ [unk_token_id cfg]"
  using g unfolding Reset_aligned [OF a k] by (simp add: append_unknown_def)

lemma TryHandle_fst:
  "fst (TryHandleTheInputWordBeingSuffixIndicatorItself fl cfg ext iw w m st) =
     (cur_node st = trie_suffix_root cfg \<and> GetCurrentOutputSize fl (out st) = m)"
  by (simp add: TryHandleTheInputWordBeingSuffixIndicatorItself_def)

lemma foldl_Append_ids:
  "kGetIds fl \<Longrightarrow>
   output_ids (out (foldl (\<lambda>s v. AppendTokenToOutput fl cfg ext iw w v s) st vs)) =
     output_ids (out st) @ map (GetTokenId ext) vs"
  by (induction vs arbitrary: st) (simp_all add: Append_ids)

lemma aligned_ids_length:
  "aligned fl ou \<Longrightarrow> kGetIds fl \<Longrightarrow> length (output_ids ou) = GetCurrentOutputSize fl ou"
  by (simp add: aligned_def)

lemma tracks_final:
  assumes c: "consistent_model cfg ext str" and s: "support_detokenization cfg"
    and t: "tracks cfg str iw n ids" and ne: "ids \<noteq> []"
    and n: "str n = suffix_indicator cfg \<or> str n = []"
  shows "DetokenizeToTokens cfg ids = Some (Inr [iw])"
proof -
  from t ne have o: "one_word cfg ids"
    and tk: "take (length (suffix_indicator cfg)) (str n) = suffix_indicator cfg"
    and w: "word_of_ids cfg ids @ drop (length (suffix_indicator cfg)) (str n) = iw"
    by (simp_all add: tracks_def)
  from n tk have "drop (length (suffix_indicator cfg)) (str n) = []" by auto
  with w have "word_of_ids cfg ids = iw" by simp
  with detokenize_one_word [OF s o] show ?thesis by simp
qed

text \<open>
  Claim C8, for a word that is not empty. On a model with \<open>support_detokenization\<close>
  whose trie, failure links, failure pops and precomputed result agree with the
  vocabulary (\<open>consistent_model\<close>), let the single-word tokenizer, called with
  output vectors of the same length, emit for the word \<open>iw\<close> ids none of which is
  \<open>unk_token_id\<close>. Then \<open>DetokenizeToTokens\<close> applied to the emitted ids returns
  exactly the one-element list \<open>[iw]\<close>.
\<close>

theorem detokenize_tokenized_word:
  assumes c: "consistent_model cfg ext str" and s: "support_detokenization cfg"
    and g: "kGetIds fl" and a: "aligned fl ou" and ne: "iw \<noteq> []"
    and t: "TokenizeSingleWordImpl fuel fl cfg ext iw w ou = Some ou'"
    and u: "unk_token_id cfg \<notin> set (drop (length (output_ids ou)) (output_ids ou'))"
  shows "DetokenizeToTokens cfg (drop (length (output_ids ou)) (output_ids ou')) =
           Some (Inr [iw])"
proof -
  let ?m = "GetCurrentOutputSize fl ou"
  let ?ids0 = "output_ids ou"
  let ?st0 = "\<lparr>cur_offset_in_input_word = 0, cur_node = kRootNodeId ext, out = ou\<rparr>"
  let ?k = "length (suffix_indicator cfg)"
  note len0 = aligned_ids_length [OF a g]
  have unk: False if "output_ids ou' = ?ids0 @ [unk_token_id cfg]"
    using that u by simp
  from c have root: "str (kRootNodeId ext) = []"
    and rp: "kRootNodeId ext \<noteq> trie_punct_failure_link_node cfg"
    and sr: "str (trie_suffix_root cfg) = suffix_indicator cfg"
    and sp: "str (trie_punct_failure_link_node cfg) = suffix_indicator cfg"
    by (simp_all add: consistent_model_def)
  have short: "\<not> max_bytes_per_token cfg < length iw"
  proof
    assume "max_bytes_per_token cfg < length iw"
    with t ne have "ou' = snd (ResetOutputAppendUnknownToken fl cfg w (int (length iw)) ?m ou)"
      by (simp add: TokenizeSingleWordImpl_def Let_def)
    with Reset_ids [OF a g keeps_refl [OF a]] unk show False by simp
  qed
  from t ne short obtain b st where
    lp: "single_word_loop fuel fl cfg ext iw w iw ?st0 = Some (b, st)"
    by (auto simp: TokenizeSingleWordImpl_def Let_def split: option.splits)
  have k0: "keeps fl ?m ou (out ?st0)" using keeps_refl [OF a] by simp
  note kst = single_word_loop_keeps [OF k0 lp]
  have b: "b"
  proof (rule ccontr)
    assume "\<not> b"
    with t ne short lp
    have "ou' = snd (ResetOutputAppendUnknownToken fl cfg w (int (length iw)) ?m (out st))"
      by (simp add: TokenizeSingleWordImpl_def Let_def)
    with Reset_ids [OF a g kst] unk show False by simp
  qed
  with lp have lpT: "single_word_loop fuel fl cfg ext iw w iw ?st0 = Some (True, st)" by simp
  have f0: "follows fl cfg str ?ids0 [] ?st0"
    using a root rp by (simp add: follows_def tracks_def)
  from single_word_loop_follows [OF c g f0 lpT]
  have fol: "follows fl cfg str ?ids0 iw st" by simp
  from t ne short lpT obtain n st' where
    h: "HandleTheRemainingStringOnTriePath fuel fl cfg ext iw w ?m st = Some (n, st')"
    and ou': "ou' = out st'"
    by (auto simp: TokenizeSingleWordImpl_def Let_def)
  have closing: "DetokenizeToTokens cfg (drop (length ?ids0) (output_ids ou')) = Some (Inr [iw])"
    if ff: "follows fl cfg str ?ids0 iw st'"
      and fin: "str (cur_node st') = suffix_indicator cfg \<or> str (cur_node st') = []"
      and nonempty: "output_ids (out st') = ?ids0 \<Longrightarrow> False"
  proof -
    from ff obtain ids where i: "output_ids (out st') = ?ids0 @ ids"
      and d: "unk_token_id cfg \<in> set ids \<or> tracks cfg str iw (cur_node st') ids"
      by (auto simp: follows_def)
    from i ou' have e: "drop (length ?ids0) (output_ids ou') = ids" by simp
    with u d have tr: "tracks cfg str iw (cur_node st') ids" by simp
    from i nonempty have "ids \<noteq> []" by auto
    from tracks_final [OF c s tr this fin] e show ?thesis by simp
  qed
  show ?thesis
  proof (cases "cur_node st = kRootNodeId ext")
    case True
    with h have st': "st' = st" by (simp add: HandleTheRemainingStringOnTriePath_def)
    show ?thesis
    proof (rule closing)
      from fol st' show "follows fl cfg str ?ids0 iw st'" by simp
      from True root st' show "str (cur_node st') = suffix_indicator cfg \<or> str (cur_node st') = []"
        by simp
      assume "output_ids (out st') = ?ids0"
      with fol st' u ou' have "tracks cfg str iw (cur_node st) []"
        by (auto simp: follows_def)
      with True root ne show False by (simp add: tracks_def)
    qed
  next
    case False
    note notroot = this
    obtain hb st1 where th:
      "TryHandleTheInputWordBeingSuffixIndicatorItself fl cfg ext iw w ?m st = (hb, st1)"
      by (cases "TryHandleTheInputWordBeingSuffixIndicatorItself fl cfg ext iw w ?m st")
    from fol have ast: "aligned fl (out st)" by (simp add: follows_def)
    show ?thesis
    proof (cases hb)
      case True
      with th TryHandle_fst [of fl cfg ext iw w ?m st]
      have nsr: "cur_node st = trie_suffix_root cfg"
        and sz: "GetCurrentOutputSize fl (out st) = ?m" by simp_all
      from notroot th True h have st': "st' = st1"
        by (simp add: HandleTheRemainingStringOnTriePath_def)
      from fol obtain ids where i: "output_ids (out st) = ?ids0 @ ids"
        and d: "unk_token_id cfg \<in> set ids \<or> tracks cfg str iw (cur_node st) ids"
        by (auto simp: follows_def)
      from aligned_ids_length [OF ast g] sz len0 i have ids: "ids = []" by simp
      with d have "tracks cfg str iw (cur_node st) []" by simp
      with nsr sr have iw: "iw = suffix_indicator cfg" by (simp add: tracks_def)
      let ?pre = "precomputed_result_for_suffix_indicator cfg"
      show ?thesis
      proof (cases "length ?pre = 1 \<and> GetTokenId ext (?pre ! 0) = unk_token_id cfg")
        case True
        with th nsr sz \<open>hb\<close>
        have "out st1 = snd (ResetOutputAppendUnknownToken fl cfg w (int (length iw)) ?m
                               (out st))"
          by (auto simp: TryHandleTheInputWordBeingSuffixIndicatorItself_def)
        with Reset_ids [OF a g kst] unk ou' st' show ?thesis by simp
      next
        case False
        with th nsr sz
        have "st1 = foldl (\<lambda>s v. AppendTokenToOutput fl cfg ext iw w v s) st ?pre"
          by (auto simp: TryHandleTheInputWordBeingSuffixIndicatorItself_def)
        with foldl_Append_ids [OF g, of cfg ext iw w st ?pre] i ids
        have i1: "output_ids (out st1) = ?ids0 @ map (GetTokenId ext) ?pre" by simp
        with ou' st' have e: "drop (length ?ids0) (output_ids ou') = map (GetTokenId ext) ?pre"
          by simp
        with u c have "one_word cfg (map (GetTokenId ext) ?pre)"
          and "word_of_ids cfg (map (GetTokenId ext) ?pre) = suffix_indicator cfg"
          by (simp_all add: consistent_model_def)
        with detokenize_one_word [OF s this(1)] e iw show ?thesis by simp
      qed
    next
      case False
      with th have st1: "st1 = st"
        using TryHandle_False [of fl cfg ext iw w ?m st st1] by simp
      from notroot th False st1 h obtain rb st2 where
        rl: "remaining_loop fuel fl cfg ext iw w st = Some (rb, st2)"
        by (auto simp: HandleTheRemainingStringOnTriePath_def split: option.splits)
      have rb: "rb"
      proof (rule ccontr)
        assume "\<not> rb"
        with notroot th False st1 h rl
        have "out st' = snd (ResetOutputAppendUnknownToken fl cfg w (int (length iw)) ?m
                               (out st2))"
          by (auto simp: HandleTheRemainingStringOnTriePath_def split: prod.splits)
        with Reset_ids [OF a g remaining_loop_keeps [OF kst rl]] unk ou' show False by simp
      qed
      with notroot th False st1 h rl have st': "st' = st2"
        by (simp add: HandleTheRemainingStringOnTriePath_def)
      from rl rb have rlT: "remaining_loop fuel fl cfg ext iw w st = Some (True, st2)" by simp
      from remaining_loop_follows [OF c g fol rlT]
      have f2: "follows fl cfg str ?ids0 iw st2"
        and n2: "cur_node st2 = trie_suffix_root cfg \<or>
                 cur_node st2 = trie_punct_failure_link_node cfg"
        and gr: "st2 = st \<or> length (output_ids (out st)) < length (output_ids (out st2))"
        by simp_all
      show ?thesis
      proof (rule closing)
        from f2 st' show "follows fl cfg str ?ids0 iw st'" by simp
        from n2 sr sp st'
        show "str (cur_node st') = suffix_indicator cfg \<or> str (cur_node st') = []" by auto
        assume e: "output_ids (out st') = ?ids0"
        from fol obtain ids where i: "output_ids (out st) = ?ids0 @ ids"
          by (auto simp: follows_def)
        with e st' gr have same: "st2 = st" by auto
        with e st' i have ids: "ids = []" by simp
        from f2 e st' u ou' have "tracks cfg str iw (cur_node st2) []"
          by (auto simp: follows_def)
        with n2 have "cur_node st2 = trie_suffix_root cfg" by (auto simp: tracks_def)
        moreover from aligned_ids_length [OF ast g] i ids len0
        have "GetCurrentOutputSize fl (out st) = ?m" by simp
        ultimately show False
          using th False same TryHandle_fst [of fl cfg ext iw w ?m st] by simp
      qed
    qed
  qed
qed


lemma example_failure_transitions:
  assumes "failure_transition example_config example_externals node = Some (ps, f)"
  shows "transition_consistent example_config (example_node_string node) ps
           (example_node_string f)"
proof -
  have "node < 10"
  proof (rule ccontr)
    assume "\<not> node < 10"
    then have "Get (failure_struct_array example_config) node = None"
      by (simp add: Get_def example_config_def)
    with assms show False by (simp add: failure_transition_def)
  qed
  then have "node \<in> {0, 1, 2, 3, 4, 5, 6, 7, 8, 9}"
    by auto
  then consider (root) "node = 0" | (hash) "node = 1" | (suffix_root) "node = 2"
    | (a) "node = 3" | (ab) "node = 4" | (abc) "node = 5" | (abcd) "node = 6"
    | (sb) "node = 7" | (sbc) "node = 8" | (sz) "node = 9"
    by blast
  then show ?thesis
    using assms
    by cases
       (auto simp: failure_transition_def Get_def example_defs transition_consistent_def
          example_node_string_def ids_in_vocab_def is_suffix_id_def vocab_entry_def Let_def)
qed

lemma example_consistent_model:
  "consistent_model example_config example_externals example_node_string"
proof -
  have edges: "example_node_string n' = example_node_string n @ [c] \<and>
               n' \<noteq> trie_punct_failure_link_node example_config"
    if "TryTraverseOneStep example_externals n c = Some n'" for n c n'
    using that
    by (auto simp: example_defs example_node_string_def split: if_splits)
  have pre: "unk_token_id example_config \<in>
               set (map (GetTokenId example_externals)
                      (precomputed_result_for_suffix_indicator example_config))"
    by (simp add: example_defs)
  have "example_node_string (kRootNodeId example_externals) = []"
    "kRootNodeId example_externals \<noteq> trie_punct_failure_link_node example_config"
    "example_node_string (trie_suffix_root example_config) = suffix_indicator example_config"
    "example_node_string (trie_punct_failure_link_node example_config) =
       suffix_indicator example_config"
    by (simp_all add: example_defs example_node_string_def)
  with edges pre example_failure_transitions show ?thesis
    unfolding consistent_model_def by blast
qed

text \<open>
  On the example model the word \<open>abcz\<close> is tokenized into the ids of \<open>a\<close>, \<open>##bc\<close>
  and \<open>##z\<close>, and these detokenize to \<open>[abcz]\<close>.
\<close>

theorem detokenize_tokenized_word_witness:
  "TokenizeSingleWordImpl 3 all_outputs example_config example_externals ''abcz'' 0
     no_outputs =
   Some \<lparr>output_pieces = [''a'', ''##bc'', ''##z''], output_ids = [0, 3, 4],
         output_start_offsets = [0, 1, 3], output_end_offsets = [1, 3, 4]\<rparr> \<and>
   DetokenizeToTokens example_config [0, 3, 4] = Some (Inr [''abcz''])"
proof -
  let ?ou' = "\<lparr>output_pieces = [''a'', ''##bc'', ''##z''], output_ids = [0, 3, 4],
               output_start_offsets = [0, 1, 3], output_end_offsets = [1, 3, 4]\<rparr>"
  have s: "support_detokenization example_config" by (simp add: example_defs)
  have g: "kGetIds all_outputs" by (simp add: example_defs)
  have al: "aligned all_outputs no_outputs"
    by (simp add: aligned_def example_defs GetCurrentOutputSize_def)
  have ne: "''abcz'' \<noteq> []" by simp
  have t: "TokenizeSingleWordImpl 3 all_outputs example_config example_externals ''abcz'' 0
             no_outputs = Some ?ou'"
    by (simp add: example_defs word_defs)
  have u: "unk_token_id example_config \<notin>
             set (drop (length (output_ids no_outputs)) (output_ids ?ou'))"
    by (simp add: example_defs)
  from detokenize_tokenized_word [OF example_consistent_model s g al ne t u] t
  show ?thesis by (simp add: no_outputs_def)
qed

text \<open>
  The claim as stated fails for the empty word: the tokenizer emits nothing for it,
  so no unknown token, and the detokenizer returns no word, not the empty word.
\<close>

theorem empty_word_detokenizes_to_nothing:
  "TokenizeSingleWordImpl 3 all_outputs example_config example_externals [] 0 no_outputs =
     Some no_outputs \<and>
   unk_token_id example_config \<notin> set (output_ids no_outputs) \<and>
   DetokenizeToTokens example_config (output_ids no_outputs) = Some (Inr []) \<and>
   DetokenizeToTokens example_config (output_ids no_outputs) \<noteq> Some (Inr [[]])"
  by (simp add: TokenizeSingleWordImpl_def DetokenizeToTokens_def example_defs)

end
